theory Spec2Isabelle
  imports Complex_Main "HOL-Library.Char_ord" "HOL-Library.List_Lexorder"
begin

section \<open>JSON values and \<open>JSON.stringify\<close>\<close>

text \<open>
  Job inputs and remote outputs are JSON values. Numbers are restricted to integers
  (rendered in decimal, as JavaScript renders integer-valued numbers below \<open>10^21\<close>);
  strings are byte strings. An object is the list of its own enumerable properties; a
  property read \<open>o[k]\<close> is \<open>map_of\<close>, a missing property (\<open>undefined\<close>) is \<open>None\<close>.
  Properties inherited from \<open>Object.prototype\<close> are not modelled: an inherited method
  serializes like a missing property, and the key \<open>__proto__\<close> is outside the model.
\<close>

datatype json =
    JNull
  | JBool bool
  | JNum int
  | JStr string
  | JArr "json list"
  | JObj "(string \<times> json) list"

definition digit_char :: "nat \<Rightarrow> char" where
  "digit_char d = char_of (48 + d)"

fun show_nat :: "nat \<Rightarrow> string" where
  "show_nat n = (if n < 10 then [digit_char n] else show_nat (n div 10) @ [digit_char (n mod 10)])"

declare show_nat.simps [simp del]

definition show_int :: "int \<Rightarrow> string" where
  "show_int i = (if i < 0 then CHR ''-'' # show_nat (nat (- i)) else show_nat (nat i))"

definition hex_digit :: "nat \<Rightarrow> char" where
  "hex_digit d = (if d < 10 then char_of (48 + d) else char_of (87 + d))"

text \<open>\<open>QuoteJSONString\<close>: the two-character escapes, \<open>\u00XX\<close> for the other control
  characters, every other character as it is.\<close>

definition quote_char :: "char \<Rightarrow> string" where
  "quote_char c =
     (let n = (of_char c :: nat) in
      if n = 0x22 then [CHR 0x5C, CHR 0x22]
      else if n = 0x5C then [CHR 0x5C, CHR 0x5C]
      else if n = 0x08 then [CHR 0x5C, CHR ''b'']
      else if n = 0x0C then [CHR 0x5C, CHR ''f'']
      else if n = 0x0A then [CHR 0x5C, CHR ''n'']
      else if n = 0x0D then [CHR 0x5C, CHR ''r'']
      else if n = 0x09 then [CHR 0x5C, CHR ''t'']
      else if n < 0x20 then [CHR 0x5C, CHR ''u'', CHR ''0'', CHR ''0'', hex_digit (n div 16), hex_digit (n mod 16)]
      else [c])"

definition quote :: "string \<Rightarrow> string" where
  "quote s = CHR 0x22 # concat (map quote_char s) @ [CHR 0x22]"

fun join :: "string \<Rightarrow> string list \<Rightarrow> string" where
  "join sep [] = []"
| "join sep [x] = x"
| "join sep (x # y # ys) = x @ sep @ join sep (y # ys)"

text \<open>
  \<open>JSON.stringify(value, replacer)\<close> with no gap. The replacer is either absent
  (\<open>None\<close>) or an array of strings, the property list (\<open>Some ks\<close>). With a property list,
  \<open>SerializeJSONObject\<close> walks the list, not the object: for each listed key it reads the
  property and emits a member when the property exists. This happens for every object
  reached, at any depth. \<open>SerializeJSONArray\<close> emits every element.
  \<open>stringify_fields\<close> renders the value of each own property; \<open>members\<close> then picks
  the members in the order the algorithm emits them.
\<close>

fun stringify :: "string list option \<Rightarrow> json \<Rightarrow> string"
  and stringify_elems :: "string list option \<Rightarrow> json list \<Rightarrow> string list"
  and stringify_fields :: "string list option \<Rightarrow> (string \<times> json) list \<Rightarrow> (string \<times> string) list"
where
  "stringify pl JNull = ''null''"
| "stringify pl (JBool b) = (if b then ''true'' else ''false'')"
| "stringify pl (JNum n) = show_int n"
| "stringify pl (JStr s) = quote s"
| "stringify pl (JArr xs) = ''['' @ join '','' (stringify_elems pl xs) @ '']''"
| "stringify pl (JObj kvs) =
     (let rendered = stringify_fields pl kvs;
          K = (case pl of None \<Rightarrow> map fst kvs | Some ks \<Rightarrow> ks)
      in ''{'' @ join '','' (concat (map (\<lambda>k. case map_of rendered k of
                                                None \<Rightarrow> []
                                              | Some s \<Rightarrow> [quote k @ '':'' @ s]) K)) @ ''}'')"
| "stringify_elems pl [] = []"
| "stringify_elems pl (x # xs) = stringify pl x # stringify_elems pl xs"
| "stringify_fields pl [] = []"
| "stringify_fields pl ((k, v) # kvs) = (k, stringify pl v) # stringify_fields pl kvs"

section \<open>Errors\<close>

text \<open>
  Every \<open>throw\<close> of the modelled code is a value. \<open>BudgetExceeded limit spend\<close> stands for
  the message \<open>Daily budget limit ($limit) exceeded. Current spend: $spend\<close>, which
  interpolates exactly these two numbers.
\<close>

datatype error =
    TypeError
  | BudgetExceeded real real
  | JobNotFound
  | DeadLetterNotFound
  | SqliteConstraint
  | SyntaxError
  | RemoteError string

section \<open>Deduplication hash\<close>

text \<open>\<open>Object.keys\<close>: own enumerable string keys; throws on \<open>null\<close>; the indices of a string
  or array; nothing for a number or a boolean.\<close>

fun object_keys :: "json \<Rightarrow> error + string list" where
  "object_keys JNull = Inl TypeError"
| "object_keys (JBool b) = Inr []"
| "object_keys (JNum n) = Inr []"
| "object_keys (JStr s) = Inr (map show_nat [0..<length s])"
| "object_keys (JArr xs) = Inr (map show_nat [0..<length xs])"
| "object_keys (JObj kvs) = Inr (map fst kvs)"

text \<open>The property list built from an array replacer keeps the first occurrence of each
  string.\<close>

fun property_list :: "string list \<Rightarrow> string list" where
  "property_list [] = []"
| "property_list (k # ks) = k # property_list (filter (\<lambda>k'. k' \<noteq> k) ks)"

text \<open>
  \<open>hashInput\<close>. The SHA-256 hex digest of Node's \<open>crypto\<close> module is a parameter
  \<open>sha256_hex\<close>; \<open>slice(0, 16)\<close> is \<open>take 16\<close>. \<open>Array.prototype.sort\<close> without a
  comparator orders strings by code unit, here the lexicographic order on character
  lists.
\<close>

definition normalized :: "json \<Rightarrow> error + string" where
  "normalized input =
     (case object_keys input of
        Inl e \<Rightarrow> Inl e
      | Inr ks \<Rightarrow> Inr (stringify (Some (property_list (sort ks))) input))"

definition hashInput :: "(string \<Rightarrow> string) \<Rightarrow> json \<Rightarrow> error + string" where
  "hashInput sha256_hex input =
     (case normalized input of
        Inl e \<Rightarrow> Inl e
      | Inr s \<Rightarrow> Inr (take 16 (sha256_hex s)))"

section \<open>Backoff\<close>

text \<open>\<open>getBackoffDelay\<close>; \<open>Math.random()\<close> is the parameter \<open>r\<close>, a real in \<open>[0, 1)\<close>.\<close>

definition baseDelay :: real where "baseDelay = 1000"
definition maxDelay :: real where "maxDelay = 32000"

definition backoff_delay :: "nat \<Rightarrow> real" where
  "backoff_delay attempts = min (baseDelay * 2 ^ attempts) maxDelay"

definition getBackoffDelay :: "nat \<Rightarrow> real \<Rightarrow> real" where
  "getBackoffDelay attempts r = backoff_delay attempts + r * 1000"

section \<open>The job store\<close>

datatype status = PENDING | RUNNING | IN_QUEUE | COMPLETED | FAILED | CANCELLED

fun status_name :: "status \<Rightarrow> string" where
  "status_name PENDING = ''PENDING''"
| "status_name RUNNING = ''RUNNING''"
| "status_name IN_QUEUE = ''IN_QUEUE''"
| "status_name COMPLETED = ''COMPLETED''"
| "status_name FAILED = ''FAILED''"
| "status_name CANCELLED = ''CANCELLED''"

text \<open>
  What \<open>updateJob\<close> leaves in the \<open>output\<close> column: it binds
  \<open>typeof v === 'object' ? JSON.stringify(v) : v\<close>. An object, an array or \<open>null\<close> is
  stored as its JSON text (\<open>OutJson\<close>, kept as the value the text parses back to);
  a string is stored as it is, without quotes (\<open>OutText\<close>); a number as a number;
  \<open>undefined\<close> as \<open>NULL\<close>. The driver refuses to bind a boolean.
\<close>

datatype out_col = OutNull | OutJson json | OutText string | OutNumber int

fun bind_output :: "json option \<Rightarrow> error + out_col" where
  "bind_output None = Inr OutNull"
| "bind_output (Some (JStr s)) = Inr (OutText s)"
| "bind_output (Some (JNum n)) = Inr (OutNumber n)"
| "bind_output (Some (JBool b)) = Inl TypeError"
| "bind_output (Some v) = Inr (OutJson v)"

text \<open>
  A row of table \<open>jobs\<close>. The \<open>input\<close> column holds \<open>JSON.stringify(job.input)\<close> and is
  read back with \<open>JSON.parse\<close>; the model keeps the value (inputs are objects; the one
  value that does not read back is the number 0). Timestamps are clock readings:
  \<open>created_at\<close> in seconds (\<open>CURRENT_TIMESTAMP\<close>), the others in milliseconds. The columns
  \<open>gpu_used\<close> and \<open>cost_usd\<close> are never written by the queue manager and stay \<open>NULL\<close>.
\<close>

record job_row =
  job_id :: string
  runpod_job_id :: "string option"
  endpoint_id :: "string option"
  status :: status
  input_hash :: string
  input :: json
  job_output :: out_col
  duration_ms :: "int option"
  attempts :: nat
  error_msg :: "string option"
  created_at :: int
  started_at :: "int option"
  completed_at :: "int option"

record dlq_row =
  dlq_id :: string
  original_job_id :: "string option"
  dlq_endpoint_id :: "string option"
  job_data :: json
  dlq_error :: string
  dlq_attempts :: "int option"
  dlq_created_at :: int

record cost_row =
  cost_usd :: "real option"
  logged_at :: int

record active_info =
  runpodJobId :: "string option"
  endpointId :: "string option"
  startTime :: int

text \<open>The events handed to \<open>broadcast\<close>, oldest first (the timestamp each message carries
  is left out).\<close>

datatype event =
    JobCreated string status
  | JobRunning string
  | JobQueued string "string option"
  | JobFailed string "string option" bool
  | JobRetry string nat real
  | JobCompleted string "json option" int
  | JobCancelled string

text \<open>
  The database tables in row order, and the fields of the \<open>QueueManager\<close> object.
  \<open>activeJobs\<close> is a JavaScript \<open>Map\<close>: an association list with distinct keys in
  insertion order.
\<close>

record qstate =
  jobs :: "job_row list"
  dead_letter_queue :: "dlq_row list"
  cost_log :: "cost_row list"
  activeJobs :: "(string \<times> active_info) list"
  rateLimitTokens :: int
  isProcessing :: bool
  events :: "event list"

record config =
  budgetLimitDaily :: real
  maxConcurrentJobs :: int
  rateLimitPerSecond :: int
  maxRetryAttempts :: int

definition broadcast :: "event \<Rightarrow> qstate \<Rightarrow> qstate" where
  "broadcast e st = st\<lparr>events := events st @ [e]\<rparr>"

definition map_has :: "string \<Rightarrow> (string \<times> 'v) list \<Rightarrow> bool" where
  "map_has k m = (k \<in> set (map fst m))"

definition map_set :: "string \<Rightarrow> 'v \<Rightarrow> (string \<times> 'v) list \<Rightarrow> (string \<times> 'v) list" where
  "map_set k v m =
     (if map_has k m then map (\<lambda>kv. if fst kv = k then (k, v) else kv) m else m @ [(k, v)])"

definition map_delete :: "string \<Rightarrow> (string \<times> 'v) list \<Rightarrow> (string \<times> 'v) list" where
  "map_delete k m = filter (\<lambda>kv. fst kv \<noteq> k) m"

subsection \<open>Table \<open>jobs\<close>\<close>

text \<open>\<open>createJob\<close>: the insert fails on a primary key that exists. The row gets the column
  defaults; \<open>job.status\<close>, \<open>job.attempts\<close> and \<open>job.createdAt\<close> are not read.\<close>

definition inserted_row :: "int \<Rightarrow> string \<Rightarrow> string option \<Rightarrow> string \<Rightarrow> json \<Rightarrow> job_row" where
  "inserted_row now jid ep h inp =
     \<lparr>job_id = jid, runpod_job_id = None, endpoint_id = ep, status = PENDING,
      input_hash = h, input = inp, job_output = OutNull, duration_ms = None, attempts = 0,
      error_msg = None, created_at = now div 1000, started_at = None, completed_at = None\<rparr>"

definition createJob :: "int \<Rightarrow> string \<Rightarrow> string option \<Rightarrow> string \<Rightarrow> json \<Rightarrow> qstate \<Rightarrow> error + qstate" where
  "createJob now jid ep h inp st =
     (if jid \<in> set (map job_id (jobs st)) then Inl SqliteConstraint
      else Inr (st\<lparr>jobs := jobs st @ [inserted_row now jid ep h inp]\<rparr>))"

text \<open>\<open>updateJob\<close>: \<open>UPDATE jobs SET ... WHERE id = ?\<close>; the assignments are the function
  \<open>upd\<close>.\<close>

definition updateJob :: "string \<Rightarrow> (job_row \<Rightarrow> job_row) \<Rightarrow> qstate \<Rightarrow> qstate" where
  "updateJob jid upd st = st\<lparr>jobs := map (\<lambda>r. if job_id r = jid then upd r else r) (jobs st)\<rparr>"

text \<open>
  \<open>getJob\<close> parses both JSON columns. The input column always parses. For the output
  column \<open>JSON.parse(job.output || 'null')\<close> is applied to whatever \<open>updateJob\<close> stored:
  a raw string goes through the parser, here the parameter \<open>json_parse\<close> (\<open>None\<close>: a
  \<open>SyntaxError\<close>); the empty string and the number 0 are falsy and read as \<open>null\<close>.
\<close>

fun parse_output :: "(string \<Rightarrow> json option) \<Rightarrow> out_col \<Rightarrow> error + json" where
  "parse_output json_parse OutNull = Inr JNull"
| "parse_output json_parse (OutJson v) = Inr v"
| "parse_output json_parse (OutText s) =
     (if s = [] then Inr JNull
      else (case json_parse s of None \<Rightarrow> Inl SyntaxError | Some v \<Rightarrow> Inr v))"
| "parse_output json_parse (OutNumber n) = Inr (if n = 0 then JNull else JNum n)"

definition getJob :: "(string \<Rightarrow> json option) \<Rightarrow> string \<Rightarrow> qstate \<Rightarrow> error + job_row option" where
  "getJob json_parse jid st =
     (case find (\<lambda>r. job_id r = jid) (jobs st) of
        None \<Rightarrow> Inr None
      | Some job \<Rightarrow>
          (case parse_output json_parse (job_output job) of
             Inl e \<Rightarrow> Inl e
           | Inr v \<Rightarrow> Inr (Some job)))"

text \<open>
  \<open>getJobByHash\<close>: \<open>ORDER BY created_at DESC LIMIT 1\<close> over the rows with the hash and a
  status of the list. Among rows created in the same second SQLite may return any; the
  model takes the first in row order (the sort is stable).
\<close>

definition dedup_status :: "status \<Rightarrow> bool" where
  "dedup_status s = (s = COMPLETED \<or> s = RUNNING \<or> s = PENDING \<or> s = IN_QUEUE)"

definition getJobByHash :: "string \<Rightarrow> qstate \<Rightarrow> job_row option" where
  "getJobByHash h st =
     (case sort_key (\<lambda>r. - created_at r)
             (filter (\<lambda>r. input_hash r = h \<and> dedup_status (status r)) (jobs st)) of
        [] \<Rightarrow> None
      | r # rs \<Rightarrow> Some r)"

text \<open>\<open>getPendingJobs\<close>: \<open>ORDER BY created_at ASC LIMIT ?\<close>. In SQLite a negative
  \<open>LIMIT\<close> is no limit.\<close>

definition getPendingJobs :: "int \<Rightarrow> qstate \<Rightarrow> job_row list" where
  "getPendingJobs limit st =
     (let rows = sort_key created_at (filter (\<lambda>r. status r = PENDING) (jobs st))
      in if limit < 0 then rows else take (nat limit) rows)"

subsection \<open>Row objects\<close>

text \<open>
  The JavaScript object \<open>getPendingJobs\<close> returns for a row: one property per column,
  under the column's name, with \<open>input\<close> parsed. Property reads on it are \<open>get_prop\<close>;
  \<open>js_text\<close> and \<open>js_int\<close> are what the driver binds for such a read in a text or
  integer column (\<open>undefined\<close> and \<open>null\<close> bind \<open>NULL\<close>).
\<close>

fun opt_text :: "string option \<Rightarrow> json" where
  "opt_text None = JNull"
| "opt_text (Some s) = JStr s"

fun opt_number :: "int option \<Rightarrow> json" where
  "opt_number None = JNull"
| "opt_number (Some n) = JNum n"

fun out_value :: "out_col \<Rightarrow> json" where
  "out_value OutNull = JNull"
| "out_value (OutJson v) = JStr (stringify None v)"
| "out_value (OutText s) = JStr s"
| "out_value (OutNumber n) = JNum n"

definition row_object :: "job_row \<Rightarrow> json" where
  "row_object r = JObj
     [(''id'', JStr (job_id r)),
      (''runpod_job_id'', opt_text (runpod_job_id r)),
      (''endpoint_id'', opt_text (endpoint_id r)),
      (''status'', JStr (status_name (status r))),
      (''input_hash'', JStr (input_hash r)),
      (''input'', input r),
      (''output'', out_value (job_output r)),
      (''gpu_used'', JNull),
      (''duration_ms'', opt_number (duration_ms r)),
      (''cost_usd'', JNull),
      (''attempts'', JNum (int (attempts r))),
      (''error'', opt_text (error_msg r)),
      (''created_at'', JNum (created_at r)),
      (''started_at'', opt_number (started_at r)),
      (''completed_at'', opt_number (completed_at r))]"

fun get_prop :: "json \<Rightarrow> string \<Rightarrow> json option" where
  "get_prop (JObj kvs) k = map_of kvs k"
| "get_prop v k = None"

fun js_text :: "json option \<Rightarrow> string option" where
  "js_text (Some (JStr s)) = Some s"
| "js_text v = None"

fun js_int :: "json option \<Rightarrow> int option" where
  "js_int (Some (JNum n)) = Some n"
| "js_int v = None"

subsection \<open>Tables \<open>dead_letter_queue\<close> and \<open>cost_log\<close>\<close>

text \<open>\<open>addToDeadLetter(job, error)\<close> reads \<open>job.id\<close>, \<open>job.endpointId\<close> and
  \<open>job.attempts\<close> and stores \<open>JSON.stringify(job)\<close>; the key is \<open>dlq_\<close> and the clock
  in milliseconds, and the insert fails when the key exists.\<close>

definition addToDeadLetter :: "int \<Rightarrow> json \<Rightarrow> string \<Rightarrow> qstate \<Rightarrow> error + qstate" where
  "addToDeadLetter now job err st =
     (let key = ''dlq_'' @ show_int now in
      if key \<in> set (map dlq_id (dead_letter_queue st)) then Inl SqliteConstraint
      else Inr (st\<lparr>dead_letter_queue := dead_letter_queue st @
        [\<lparr>dlq_id = key,
          original_job_id = js_text (get_prop job ''id''),
          dlq_endpoint_id = js_text (get_prop job ''endpointId''),
          job_data = job,
          dlq_error = err,
          dlq_attempts = js_int (get_prop job ''attempts''),
          dlq_created_at = now div 1000\<rparr>]\<rparr>))"

definition getDeadLetterJobs :: "qstate \<Rightarrow> dlq_row list" where
  "getDeadLetterJobs st = sort_key (\<lambda>r. - dlq_created_at r) (dead_letter_queue st)"

definition logCost :: "int \<Rightarrow> real option \<Rightarrow> qstate \<Rightarrow> qstate" where
  "logCost now cost st = st\<lparr>cost_log := cost_log st @ [\<lparr>cost_usd = cost, logged_at = now div 1000\<rparr>]\<rparr>"

text \<open>\<open>getTodaySpend\<close>: the sum of the non-\<open>NULL\<close> costs logged on the UTC day of the
  clock, 0 when there is none. The sum is exact here.\<close>

definition getTodaySpend :: "int \<Rightarrow> qstate \<Rightarrow> real" where
  "getTodaySpend now st =
     (let today = now div 86400000
      in sum_list (map (\<lambda>c. case cost_usd c of None \<Rightarrow> 0 | Some x \<Rightarrow> x)
                       (filter (\<lambda>c. logged_at c div 86400 = today) (cost_log st))))"

section \<open>The queue manager\<close>

subsection \<open>\<open>submitJob\<close>\<close>

text \<open>
  The result is the annotated existing row (\<open>deduplicated: true\<close>) or the id and status
  of the new job. \<open>now\<close> is the clock and \<open>uuid\<close> the value \<open>uuidv4()\<close> returns. The
  returned state is the state after the call, also when the call throws.
\<close>

datatype submit_result = Deduplicated job_row | Queued string status

definition submitJob ::
  "config \<Rightarrow> (string \<Rightarrow> string) \<Rightarrow> int \<Rightarrow> string \<Rightarrow> string option \<Rightarrow> json \<Rightarrow> bool \<Rightarrow> qstate
     \<Rightarrow> (error + submit_result) \<times> qstate" where
  "submitJob cfg sha256_hex now uuid endpoint inp skipDeduplication st =
     (case hashInput sha256_hex inp of
        Inl e \<Rightarrow> (Inl e, st)
      | Inr inputHash \<Rightarrow>
          (case (if skipDeduplication then None else getJobByHash inputHash st) of
             Some existing \<Rightarrow> (Inr (Deduplicated existing), st)
           | None \<Rightarrow>
               (let todaySpend = getTodaySpend now st in
                if todaySpend \<ge> budgetLimitDaily cfg
                then (Inl (BudgetExceeded (budgetLimitDaily cfg) todaySpend), st)
                else (case createJob now uuid endpoint inputHash inp st of
                        Inl e \<Rightarrow> (Inl e, st)
                      | Inr st1 \<Rightarrow>
                          (Inr (Queued uuid PENDING), broadcast (JobCreated uuid PENDING) st1)))))"

subsection \<open>Rate limit tokens\<close>

text \<open>
  The timer callback of \<open>startTokenRefillLoop\<close>, and \<open>acquireRateLimitToken\<close>. The
  loop of the latter sleeps 100 ms while the counter is below 1; the list says, for each
  sleep, whether the refill timer fired during it. The result is whether a token was
  taken (\<open>False\<close>: still waiting when the list ends) and the counter.
\<close>

definition refillTokens :: "config \<Rightarrow> int \<Rightarrow> int" where
  "refillTokens cfg tokens = min (rateLimitPerSecond cfg) (tokens + rateLimitPerSecond cfg)"

fun acquireRateLimitToken :: "config \<Rightarrow> bool list \<Rightarrow> int \<Rightarrow> bool \<times> int" where
  "acquireRateLimitToken cfg [] tokens =
     (if tokens < 1 then (False, tokens) else (True, tokens - 1))"
| "acquireRateLimitToken cfg (fired # sleeps) tokens =
     (if tokens < 1
      then acquireRateLimitToken cfg sleeps (if fired then refillTokens cfg tokens else tokens)
      else (True, tokens - 1))"

subsection \<open>\<open>processJob\<close>\<close>

text \<open>
  What one dispatch meets outside the process: the clock at its start, the sleeps of
  the token wait, the outcome of \<open>serverlessClient.runJob\<close> (\<open>Inl\<close> the message of the
  error thrown, \<open>Inr\<close> the \<open>id\<close> of the response), the clock when a dead-letter key is
  made, and \<open>Math.random()\<close>.
\<close>

record dispatch_env =
  d_now :: int
  d_sleeps :: "bool list"
  d_run :: "string + string option"
  d_fail_now :: int
  d_random :: real

datatype promise = Unsettled | Fulfilled | Rejected

definition processJob :: "config \<Rightarrow> dispatch_env \<Rightarrow> job_row \<Rightarrow> qstate \<Rightarrow> promise \<times> qstate" where
  "processJob cfg env job st =
     (let st1 = updateJob (job_id job)
                  (\<lambda>r. r\<lparr>status := RUNNING, started_at := Some (d_now env),
                          attempts := attempts job + 1\<rparr>) st;
          st2 = broadcast (JobRunning (job_id job)) st1;
          acq = acquireRateLimitToken cfg (d_sleeps env) (rateLimitTokens st2);
          st3 = st2\<lparr>rateLimitTokens := snd acq\<rparr>
      in if fst acq then
           (case d_run env of
              Inr rid \<Rightarrow>
                (let st4 = updateJob (job_id job)
                             (\<lambda>r. r\<lparr>runpod_job_id := rid, status := IN_QUEUE\<rparr>) st3;
                     st5 = broadcast (JobQueued (job_id job) rid) st4
                 in (Fulfilled,
                     st5\<lparr>activeJobs := map_set (job_id job)
                           \<lparr>runpodJobId = rid, endpointId = endpoint_id job,
                            startTime = d_now env\<rparr> (activeJobs st5)\<rparr>))
            | Inl message \<Rightarrow>
                (let n = attempts job + 1 in
                 if int n \<ge> maxRetryAttempts cfg then
                   (let st4 = updateJob (job_id job)
                                (\<lambda>r. r\<lparr>status := FAILED, error_msg := Some message,
                                        attempts := n\<rparr>) st3
                    in case addToDeadLetter (d_fail_now env) (row_object job) message st4 of
                         Inl e \<Rightarrow> (Rejected, st4)
                       | Inr st5 \<Rightarrow>
                           (Rejected, broadcast (JobFailed (job_id job) (Some message) True) st5))
                 else
                   (let delay = getBackoffDelay n (d_random env);
                        st4 = updateJob (job_id job)
                                (\<lambda>r. r\<lparr>status := PENDING, error_msg := Some message,
                                        attempts := n\<rparr>) st3
                    in (Rejected, broadcast (JobRetry (job_id job) n delay) st4))))
         else (Unsettled, st3))"

subsection \<open>\<open>pollActiveJobs\<close>\<close>

text \<open>
  What one status request meets: the clock, and either an error thrown by
  \<open>serverlessClient.getJobStatus\<close> or a response with its \<open>status\<close> (\<open>COMPLETED\<close>,
  \<open>FAILED\<close>, or anything else), \<open>output\<close> and \<open>error\<close>. An error inside the loop body,
  also one thrown by \<open>updateJob\<close>, is caught and logged.
\<close>

datatype remote_status = R_COMPLETED | R_FAILED | R_OTHER

datatype poll_result = PollThrows | PollStatus remote_status "json option" "string option"

record poll_env =
  p_now :: int
  p_result :: poll_result

fun or_default :: "string option \<Rightarrow> string \<Rightarrow> string" where
  "or_default None d = d"
| "or_default (Some s) d = (if s = [] then d else s)"

definition poll_one :: "(string \<Rightarrow> poll_env) \<Rightarrow> string \<times> active_info \<Rightarrow> qstate \<Rightarrow> qstate" where
  "poll_one penv entry st =
     (let jobId = fst entry; info = snd entry; now = p_now (penv jobId) in
      case p_result (penv jobId) of
        PollThrows \<Rightarrow> st
      | PollStatus R_COMPLETED out err \<Rightarrow>
          (let duration = now - startTime info in
           case bind_output out of
             Inl e \<Rightarrow> st
           | Inr col \<Rightarrow>
               (let st1 = updateJob jobId
                            (\<lambda>r. r\<lparr>status := COMPLETED, job_output := col,
                                    duration_ms := Some duration, completed_at := Some now\<rparr>) st;
                    st2 = st1\<lparr>activeJobs := map_delete jobId (activeJobs st1)\<rparr>
                in broadcast (JobCompleted jobId out duration) st2))
      | PollStatus R_FAILED out err \<Rightarrow>
          (let st1 = updateJob jobId
                       (\<lambda>r. r\<lparr>status := FAILED, error_msg := Some (or_default err ''Job failed''),
                               completed_at := Some now\<rparr>) st;
               st2 = st1\<lparr>activeJobs := map_delete jobId (activeJobs st1)\<rparr>
           in broadcast (JobFailed jobId err False) st2)
      | PollStatus R_OTHER out err \<Rightarrow> st)"

definition pollActiveJobs :: "(string \<Rightarrow> poll_env) \<Rightarrow> qstate \<Rightarrow> qstate" where
  "pollActiveJobs penv st = fold (poll_one penv) (activeJobs st) st"

subsection \<open>The processing loop\<close>

text \<open>
  One run of the timer callback \<open>process\<close>, taken to its end: the dispatches of the
  fetched jobs one after the other in fetch order, each with its environment, then the
  polling pass. When a dispatch is still waiting for a token at the end of its
  environment, \<open>Promise.allSettled\<close> has not resolved: the polling pass has not run and
  \<open>isProcessing\<close> is still set.
\<close>

fun dispatch_all :: "config \<Rightarrow> (string \<Rightarrow> dispatch_env) \<Rightarrow> job_row list \<Rightarrow> qstate \<Rightarrow> bool \<times> qstate" where
  "dispatch_all cfg denv [] st = (True, st)"
| "dispatch_all cfg denv (job # rest) st =
     (let r = processJob cfg (denv (job_id job)) job st;
          rs = dispatch_all cfg denv rest (snd r)
      in (fst r \<noteq> Unsettled \<and> fst rs, snd rs))"

definition selected_jobs :: "config \<Rightarrow> qstate \<Rightarrow> job_row list" where
  "selected_jobs cfg st = getPendingJobs (maxConcurrentJobs cfg - int (length (activeJobs st))) st"

definition process :: "config \<Rightarrow> (string \<Rightarrow> dispatch_env) \<Rightarrow> (string \<Rightarrow> poll_env) \<Rightarrow> qstate \<Rightarrow> qstate" where
  "process cfg denv penv st =
     (if isProcessing st then st
      else (let st1 = st\<lparr>isProcessing := True\<rparr>;
                pendingJobs = selected_jobs cfg st1;
                d = dispatch_all cfg denv pendingJobs st1
            in if fst d then (pollActiveJobs penv (snd d))\<lparr>isProcessing := False\<rparr>
               else snd d))"

subsection \<open>\<open>cancelJob\<close> and \<open>retryDeadLetter\<close>\<close>

text \<open>\<open>cancel_error\<close> is the message of the error \<open>serverlessClient.cancelJob\<close> throws, if
  it is called and throws.\<close>

fun truthy :: "string option \<Rightarrow> bool" where
  "truthy None = False"
| "truthy (Some s) = (s \<noteq> [])"

definition mark_cancelled :: "string \<Rightarrow> qstate \<Rightarrow> (error + unit) \<times> qstate" where
  "mark_cancelled jobId st =
     (Inr (), broadcast (JobCancelled jobId) (updateJob jobId (\<lambda>r. r\<lparr>status := CANCELLED\<rparr>) st))"

definition cancelJob :: "(string \<Rightarrow> json option) \<Rightarrow> string option \<Rightarrow> string \<Rightarrow> qstate \<Rightarrow> (error + unit) \<times> qstate" where
  "cancelJob json_parse cancel_error jobId st =
     (case getJob json_parse jobId st of
        Inl e \<Rightarrow> (Inl e, st)
      | Inr None \<Rightarrow> (Inl JobNotFound, st)
      | Inr (Some job) \<Rightarrow>
          (if truthy (runpod_job_id job) \<and> map_has jobId (activeJobs st) then
             (case cancel_error of
                Some message \<Rightarrow> (Inl (RemoteError message), st)
              | None \<Rightarrow> mark_cancelled jobId (st\<lparr>activeJobs := map_delete jobId (activeJobs st)\<rparr>))
           else mark_cancelled jobId st))"

text \<open>\<open>retryDeadLetter\<close> reads \<open>jobData.endpointId\<close> and \<open>jobData.input\<close> of the stored
  snapshot; \<open>hashInput\<close> throws on an \<open>undefined\<close> input.\<close>

definition retryDeadLetter ::
  "config \<Rightarrow> (string \<Rightarrow> string) \<Rightarrow> int \<Rightarrow> string \<Rightarrow> string \<Rightarrow> qstate \<Rightarrow> (error + submit_result) \<times> qstate" where
  "retryDeadLetter cfg sha256_hex now uuid dlqId st =
     (case find (\<lambda>j. dlq_id j = dlqId) (getDeadLetterJobs st) of
        None \<Rightarrow> (Inl DeadLetterNotFound, st)
      | Some dlqJob \<Rightarrow>
          (let jobData = job_data dlqJob in
           case get_prop jobData ''input'' of
             None \<Rightarrow> (Inl TypeError, st)
           | Some inp \<Rightarrow>
               submitJob cfg sha256_hex now uuid (js_text (get_prop jobData ''endpointId''))
                 inp True st))"

subsection \<open>Runs\<close>

text \<open>
  The operations of the running system, each with what it reads from outside, and the
  state a sequence of them leaves. An operation runs to its end before the next starts.
  The constructor of \<open>QueueManager\<close> starts with an empty \<open>activeJobs\<close> and a full
  counter.
\<close>

datatype action =
    Submit int string "string option" json bool
  | Cancel "string option" string
  | RetryDead int string string
  | Tick "string \<Rightarrow> dispatch_env" "string \<Rightarrow> poll_env"
  | Refill
  | LogCost int "real option"

record library =
  sha256_hex :: "string \<Rightarrow> string"
  json_parse :: "string \<Rightarrow> json option"

fun step :: "config \<Rightarrow> library \<Rightarrow> action \<Rightarrow> qstate \<Rightarrow> qstate" where
  "step cfg lib (Submit now uuid endpoint inp skip) st =
     snd (submitJob cfg (sha256_hex lib) now uuid endpoint inp skip st)"
| "step cfg lib (Cancel cancel_error jobId) st = snd (cancelJob (json_parse lib) cancel_error jobId st)"
| "step cfg lib (RetryDead now uuid dlqId) st =
     snd (retryDeadLetter cfg (sha256_hex lib) now uuid dlqId st)"
| "step cfg lib (Tick denv penv) st = process cfg denv penv st"
| "step cfg lib Refill st = st\<lparr>rateLimitTokens := refillTokens cfg (rateLimitTokens st)\<rparr>"
| "step cfg lib (LogCost now cost) st = logCost now cost st"

definition run :: "config \<Rightarrow> library \<Rightarrow> action list \<Rightarrow> qstate \<Rightarrow> qstate" where
  "run cfg lib acts st = fold (step cfg lib) acts st"

definition init :: "config \<Rightarrow> qstate" where
  "init cfg =
     \<lparr>jobs = [], dead_letter_queue = [], cost_log = [], activeJobs = [],
      rateLimitTokens = rateLimitPerSecond cfg, isProcessing = False, events = []\<rparr>"

subsection \<open>The token counter alone\<close>

text \<open>
  The counter under any interleaving of calls of \<open>acquireRateLimitToken\<close> and runs of
  the refill timer. A call that does not sleep (\<open>Acquire []\<close>) is one evaluation of the
  loop condition, followed by the decrement when the condition is false; between the two
  the code does not yield, so concurrent waiters interleave as such single events.
\<close>

datatype token_event = Acquire "bool list" | RefillTimer

fun token_step :: "config \<Rightarrow> token_event \<Rightarrow> int \<Rightarrow> int" where
  "token_step cfg (Acquire sleeps) tokens = snd (acquireRateLimitToken cfg sleeps tokens)"
| "token_step cfg RefillTimer tokens = refillTokens cfg tokens"

definition token_run :: "config \<Rightarrow> token_event list \<Rightarrow> int" where
  "token_run cfg evs = fold (token_step cfg) evs (rateLimitPerSecond cfg)"

section \<open>Notions used to state the properties\<close>

text \<open>
  \<open>prune ks v\<close> is \<open>v\<close> without the object entries, at any depth, whose key is not in
  \<open>ks\<close>.
\<close>

fun prune :: "string list \<Rightarrow> json \<Rightarrow> json"
  and prune_elems :: "string list \<Rightarrow> json list \<Rightarrow> json list"
  and prune_fields :: "string list \<Rightarrow> (string \<times> json) list \<Rightarrow> (string \<times> json) list"
where
  "prune ks JNull = JNull"
| "prune ks (JBool b) = JBool b"
| "prune ks (JNum n) = JNum n"
| "prune ks (JStr s) = JStr s"
| "prune ks (JArr xs) = JArr (prune_elems ks xs)"
| "prune ks (JObj kvs) = JObj (prune_fields ks kvs)"
| "prune_elems ks [] = []"
| "prune_elems ks (x # xs) = prune ks x # prune_elems ks xs"
| "prune_fields ks [] = []"
| "prune_fields ks ((k, v) # kvs) =
     (if k \<in> set ks then (k, prune ks v) # prune_fields ks kvs else prune_fields ks kvs)"

text \<open>The row update of \<open>cancelJob\<close>, as a function on rows.\<close>

definition set_cancelled :: "string \<Rightarrow> job_row \<Rightarrow> job_row" where
  "set_cancelled jobId r = (if job_id r = jobId then r\<lparr>status := CANCELLED\<rparr> else r)"

text \<open>
  The deduplication invariant: among the rows with a non-terminal status no hash occurs
  twice. \<open>store_ok\<close> adds that the primary keys are distinct. \<open>keeps_key\<close> says of a row
  update that it leaves id and hash alone. \<open>active_ok\<close> says that the active table
  holds at most \<open>maxConcurrentJobs\<close> entries. An action bypasses deduplication when it is
  a submission with \<open>skipDeduplication\<close> or a dead-letter retry.
\<close>

definition non_terminal :: "status \<Rightarrow> bool" where
  "non_terminal s = (s = PENDING \<or> s = RUNNING \<or> s = IN_QUEUE)"





definition keeps_key :: "(job_row \<Rightarrow> job_row) \<Rightarrow> bool" where
  "keeps_key g = (\<forall>r. job_id (g r) = job_id r \<and> input_hash (g r) = input_hash r)"

definition active_ok :: "config \<Rightarrow> qstate \<Rightarrow> bool" where
  "active_ok cfg st = (int (length (activeJobs st)) \<le> maxConcurrentJobs cfg)"


section \<open>Example data\<close>

text \<open>
  A configuration, stand-ins for the two library functions, inputs and environments, used
  to evaluate the model on concrete runs. \<open>demo_digest\<close> returns 64 hexadecimal digits
  that depend on the length of the text only; no result below depends on the digest.
\<close>

definition cfg3 :: config where
  "cfg3 = \<lparr>budgetLimitDaily = 50, maxConcurrentJobs = 5, rateLimitPerSecond = 2,
           maxRetryAttempts = 3\<rparr>"

definition demo_digest :: "string \<Rightarrow> string" where
  "demo_digest s = replicate 64 (hex_digit (length s mod 16))"

definition demo_lib :: library where
  "demo_lib = \<lparr>sha256_hex = demo_digest, json_parse = (\<lambda>s. None)\<rparr>"

definition cat :: json where
  "cat = JObj [(''prompt'', JStr ''cat'')]"

definition cat_row :: job_row where
  "cat_row = \<lparr>job_id = ''job-1'', runpod_job_id = None, endpoint_id = Some ''ep1'',
     status = PENDING, input_hash = ''0000000000000000'', input = cat, job_output = OutNull,
     duration_ms = None, attempts = 0, error_msg = None, created_at = 1, started_at = None,
     completed_at = None\<rparr>"

definition one_job :: qstate where
  "one_job = \<lparr>jobs = [cat_row], dead_letter_queue = [], cost_log = [], activeJobs = [],
     rateLimitTokens = 2, isProcessing = False,
     events = [JobCreated ''job-1'' PENDING]\<rparr>"

definition over_budget :: qstate where
  "over_budget = \<lparr>jobs = [], dead_letter_queue = [],
     cost_log = [\<lparr>cost_usd = Some 60, logged_at = 0\<rparr>], activeJobs = [],
     rateLimitTokens = 2, isProcessing = False, events = []\<rparr>"

definition nested1 :: json where
  "nested1 = JObj [(''a'', JObj [(''b'', JNum 1)])]"

definition nested2 :: json where
  "nested2 = JObj [(''a'', JObj [(''b'', JNum 2)])]"

text \<open>A dispatch environment in which \<open>runJob\<close> throws, a polling environment in which
  every status request throws, and the runs they give from one submission.\<close>

definition failing :: "string \<Rightarrow> dispatch_env" where
  "failing = (\<lambda>j. \<lparr>d_now = 2000, d_sleeps = [True], d_run = Inl ''boom'', d_fail_now = 2500,
                   d_random = 0\<rparr>)"

definition no_answer :: "string \<Rightarrow> poll_env" where
  "no_answer = (\<lambda>j. \<lparr>p_now = 3000, p_result = PollThrows\<rparr>)"

definition retried_row :: job_row where
  "retried_row = cat_row\<lparr>status := PENDING, started_at := Some 2000, attempts := 2,
                         error_msg := Some ''boom''\<rparr>"

definition two_failures :: qstate where
  "two_failures = run cfg3 demo_lib
     [Submit 1000 ''job-1'' (Some ''ep1'') cat False,
      Tick failing no_answer, Tick failing no_answer] (init cfg3)"

definition dead_run :: qstate where
  "dead_run = run cfg3 demo_lib
     [Submit 1000 ''job-1'' (Some ''ep1'') cat False,
      Tick failing no_answer, Tick failing no_answer, Tick failing no_answer] (init cfg3)"

definition neg_cap :: config where
  "neg_cap = \<lparr>budgetLimitDaily = 50, maxConcurrentJobs = - 1, rateLimitPerSecond = 2,
              maxRetryAttempts = 3\<rparr>"

definition dead_letter :: dlq_row where
  "dead_letter = \<lparr>dlq_id = ''dlq_2500'', original_job_id = Some ''job-1'',
     dlq_endpoint_id = None, job_data = row_object retried_row, dlq_error = ''boom'',
     dlq_attempts = Some 2, dlq_created_at = 2\<rparr>"

text \<open>A dispatch environment in which \<open>runJob\<close> returns the handle \<open>r1\<close> at once, and a
  polling environment in which the remote job is reported COMPLETED.\<close>

definition accepting :: "string \<Rightarrow> dispatch_env" where
  "accepting = (\<lambda>j. \<lparr>d_now = 2000, d_sleeps = [], d_run = Inr (Some ''r1''), d_fail_now = 2500,
                     d_random = 0\<rparr>)"

definition completed :: "string \<Rightarrow> poll_env" where
  "completed = (\<lambda>j. \<lparr>p_now = 3000,
       p_result = PollStatus R_COMPLETED (Some (JObj [(''url'', JStr ''x.png'')])) None\<rparr>)"

section \<open>Evaluation lemmas\<close>

lemma hashInput_cat: "hashInput demo_digest cat = Inr ''0000000000000000''"
  by code_simp

lemma one_job_run:
  "run cfg3 demo_lib [Submit 1000 ''job-1'' (Some ''ep1'') cat False] (init cfg3) = one_job"
  by (simp add: run_def init_def demo_lib_def submitJob_def hashInput_cat getJobByHash_def
      getTodaySpend_def createJob_def inserted_row_def broadcast_def cfg3_def one_job_def
      cat_row_def)

text \<open>A submission, dispatched and completed within one tick.\<close>

lemma completed_run:
  "jobs (run cfg3 demo_lib
      [Submit 1000 ''job-1'' (Some ''ep1'') cat False, Tick accepting completed] (init cfg3))
   = [cat_row\<lparr>status := COMPLETED, runpod_job_id := Some ''r1'', attempts := 1,
               started_at := Some 2000, completed_at := Some 3000, duration_ms := Some 1000,
               job_output := OutJson (JObj [(''url'', JStr ''x.png'')])\<rparr>]"
  unfolding cat_row_def by code_simp

section \<open>Frame lemmas\<close>

lemma updateJob_frame [simp]:
  "dead_letter_queue (updateJob i f st) = dead_letter_queue st"
  "rateLimitTokens (updateJob i f st) = rateLimitTokens st"
  "activeJobs (updateJob i f st) = activeJobs st"
  "cost_log (updateJob i f st) = cost_log st"
  "events (updateJob i f st) = events st"
  "isProcessing (updateJob i f st) = isProcessing st"
  "jobs (updateJob i f st) = map (\<lambda>r. if job_id r = i then f r else r) (jobs st)"
  by (simp_all add: updateJob_def)

lemma broadcast_frame [simp]:
  "dead_letter_queue (broadcast e st) = dead_letter_queue st"
  "rateLimitTokens (broadcast e st) = rateLimitTokens st"
  "activeJobs (broadcast e st) = activeJobs st"
  "cost_log (broadcast e st) = cost_log st"
  "jobs (broadcast e st) = jobs st"
  "isProcessing (broadcast e st) = isProcessing st"
  "events (broadcast e st) = events st @ [e]"
  by (simp_all add: broadcast_def)

lemma row_object_props:
  "get_prop (row_object job) ''id'' = Some (JStr (job_id job))"
  "get_prop (row_object job) ''endpointId'' = None"
  "get_prop (row_object job) ''attempts'' = Some (JNum (int (attempts job)))"
  "get_prop (row_object job) ''input'' = Some (input job)"
  by (simp_all add: row_object_def)

section \<open>Backoff delay\<close>





section \<open>Rate limit tokens\<close>

lemma refillTokens_full:
  "0 \<le> rateLimitPerSecond cfg \<Longrightarrow> 0 \<le> t \<Longrightarrow> refillTokens cfg t = rateLimitPerSecond cfg"
  by (simp add: refillTokens_def)

lemma acquire_bounds:
  "0 \<le> rateLimitPerSecond cfg \<Longrightarrow> 0 \<le> t \<Longrightarrow> t \<le> rateLimitPerSecond cfg \<Longrightarrow>
   0 \<le> snd (acquireRateLimitToken cfg sleeps t) \<and>
   snd (acquireRateLimitToken cfg sleeps t) \<le> rateLimitPerSecond cfg"
proof (induction sleeps arbitrary: t)
  case Nil
  then show ?case by simp
next
  case (Cons fired sleeps)
  show ?case
  proof (cases "t < 1")
    case True
    let ?t' = "if fired then refillTokens cfg t else t"
    have "0 \<le> ?t'" "?t' \<le> rateLimitPerSecond cfg"
      using Cons.prems by (simp_all add: refillTokens_full)
    then show ?thesis using True Cons.IH [of ?t'] Cons.prems(1) by simp
  next
    case False
    then show ?thesis using Cons.prems by simp
  qed
qed

lemma token_fold_bounds:
  "0 \<le> rateLimitPerSecond cfg \<Longrightarrow> 0 \<le> t \<Longrightarrow> t \<le> rateLimitPerSecond cfg \<Longrightarrow>
   0 \<le> fold (token_step cfg) evs t \<and> fold (token_step cfg) evs t \<le> rateLimitPerSecond cfg"
proof (induction evs arbitrary: t)
  case Nil
  then show ?case by simp
next
  case (Cons ev evs)
  have "0 \<le> token_step cfg ev t \<and> token_step cfg ev t \<le> rateLimitPerSecond cfg"
  proof (cases ev)
    case (Acquire sleeps)
    then show ?thesis using acquire_bounds [OF Cons.prems] by simp
  next
    case RefillTimer
    then show ?thesis using Cons.prems by (simp add: refillTokens_full)
  qed
  then show ?case using Cons.IH [of "token_step cfg ev t"] Cons.prems(1) by simp
qed

text \<open>
  Claim C5. With a configured rate \<open>N \<ge> 0\<close>, after any sequence of token acquisitions
  and refill timer runs from the initial counter \<open>N\<close>, the counter lies between 0 and
  \<open>N\<close>; a refill then sets it to exactly \<open>N\<close>; and an acquisition attempt takes a token,
  decrementing by exactly one, when the counter is at least 1, and leaves the counter
  alone otherwise.
\<close>

theorem rate_limit_counter_bounds:
  assumes "0 \<le> rateLimitPerSecond cfg"
  shows "0 \<le> token_run cfg evs
       \<and> token_run cfg evs \<le> rateLimitPerSecond cfg
       \<and> refillTokens cfg (token_run cfg evs) = rateLimitPerSecond cfg
       \<and> acquireRateLimitToken cfg [] (token_run cfg evs) =
           (if 1 \<le> token_run cfg evs then (True, token_run cfg evs - 1)
            else (False, token_run cfg evs))"
proof -
  have b: "0 \<le> token_run cfg evs \<and> token_run cfg evs \<le> rateLimitPerSecond cfg"
    unfolding token_run_def using assms by (intro token_fold_bounds) simp_all
  then show ?thesis using assms by (simp add: refillTokens_full)
qed

theorem rate_limit_counter_bounds_witness:
  "token_run cfg3 [Acquire [], Acquire [], Acquire [False], RefillTimer, Acquire []] = 1
   \<and> token_run cfg3 [Acquire [], Acquire [], Acquire [False]] = 0
   \<and> refillTokens cfg3 (token_run cfg3 [Acquire [], Acquire [], Acquire [False]]) = 2
   \<and> acquireRateLimitToken cfg3 [] (token_run cfg3 [Acquire [], Acquire [], Acquire [False]])
       = (False, 0)"
  using rate_limit_counter_bounds [of cfg3 "[Acquire [], Acquire [], Acquire [False]]"]
  by (simp add: token_run_def cfg3_def refillTokens_def)

section \<open>Deduplication and the budget gate in \<open>submitJob\<close>\<close>

lemma dedup_status_iff: "dedup_status s \<longleftrightarrow> s \<in> {COMPLETED, RUNNING, PENDING, IN_QUEUE}"
  by (auto simp: dedup_status_def)

lemma sort_key_head_least:
  assumes "sort_key f xs = y # ys" and "x \<in> set xs"
  shows "f y \<le> f x"
proof -
  have "sorted (map f (sort_key f xs))" by (rule sorted_sort_key)
  then have "\<forall>z \<in> set ys. f y \<le> f z" using assms(1) by simp
  moreover have "x \<in> set (y # ys)" using assms by (metis set_sort)
  ultimately show ?thesis by auto
qed

lemma getJobByHash_newest:
  assumes "j \<in> set (jobs st)" and "input_hash j = h" and "dedup_status (status j)"
  shows "\<exists>r. getJobByHash h st = Some r \<and> r \<in> set (jobs st) \<and> input_hash r = h
           \<and> dedup_status (status r)
           \<and> (\<forall>r' \<in> set (jobs st). input_hash r' = h \<and> dedup_status (status r')
                  \<longrightarrow> created_at r' \<le> created_at r)"
proof -
  let ?P = "\<lambda>r. input_hash r = h \<and> dedup_status (status r)"
  let ?f = "\<lambda>r::job_row. - created_at r"
  let ?ys = "sort_key ?f (filter ?P (jobs st))"
  have mem: "j \<in> set ?ys" using assms by simp
  then obtain r rs where ys: "?ys = r # rs" by (cases ?ys) auto
  have "r \<in> set ?ys" using ys by simp
  then have r: "r \<in> set (jobs st)" "?P r" by simp_all
  have newest: "created_at r' \<le> created_at r" if "r' \<in> set (jobs st)" "?P r'" for r'
  proof -
    have "r' \<in> set (filter ?P (jobs st))" using that by simp
    from sort_key_head_least [OF ys this] show ?thesis by simp
  qed
  have "getJobByHash h st = Some r" by (simp add: getJobByHash_def ys)
  then show ?thesis using r newest by blast
qed

text \<open>
  Claim C1. When \<open>submitJob\<close> is called without \<open>skipDeduplication\<close> and the store holds
  a job with the hash of the input and a status among COMPLETED, RUNNING, PENDING and
  IN_QUEUE, the call returns such a job marked as a duplicate, one created no earlier
  than any other such job, and leaves the whole state as it was: no row, no event, no
  dispatch.
\<close>

theorem submitJob_deduplicates:
  assumes "hashInput H inp = Inr h"
    and "j \<in> set (jobs st)" and "input_hash j = h"
    and "status j \<in> {COMPLETED, RUNNING, PENDING, IN_QUEUE}"
  shows "\<exists>existing.
           submitJob cfg H now uuid ep inp False st = (Inr (Deduplicated existing), st)
         \<and> existing \<in> set (jobs st) \<and> input_hash existing = h
         \<and> status existing \<in> {COMPLETED, RUNNING, PENDING, IN_QUEUE}
         \<and> (\<forall>r \<in> set (jobs st).
               input_hash r = h \<and> status r \<in> {COMPLETED, RUNNING, PENDING, IN_QUEUE}
               \<longrightarrow> created_at r \<le> created_at existing)"
proof -
  from getJobByHash_newest [OF assms(2,3)] assms(4)
  obtain r where r: "getJobByHash h st = Some r" "r \<in> set (jobs st)" "input_hash r = h"
      "dedup_status (status r)"
      "\<forall>r' \<in> set (jobs st). input_hash r' = h \<and> dedup_status (status r')
                  \<longrightarrow> created_at r' \<le> created_at r"
    unfolding dedup_status_iff by blast
  have "submitJob cfg H now uuid ep inp False st = (Inr (Deduplicated r), st)"
    by (simp add: submitJob_def assms(1) r(1))
  then show ?thesis using r(2-5) unfolding dedup_status_iff by blast
qed

theorem submitJob_deduplicates_witness:
  "submitJob cfg3 demo_digest 2000 ''job-2'' (Some ''ep1'') cat False one_job
     = (Inr (Deduplicated cat_row), one_job)"
  using submitJob_deduplicates [of demo_digest cat "''0000000000000000''" cat_row one_job
      cfg3 2000 "''job-2''" "Some ''ep1''"]
  by (simp add: hashInput_cat one_job_def cat_row_def)

text \<open>
  Claim C3. When a call of \<open>submitJob\<close> is not resolved as a duplicate (deduplication is
  skipped, or no job matches the hash) and today's spend has reached the daily limit,
  the call fails with the budget error, which carries the limit and the spend, and
  leaves the whole state as it was: no row and no event.
\<close>

theorem submitJob_budget_gate:
  assumes "hashInput H inp = Inr h"
    and "skip \<or> getJobByHash h st = None"
    and "budgetLimitDaily cfg \<le> getTodaySpend now st"
  shows "submitJob cfg H now uuid ep inp skip st =
           (Inl (BudgetExceeded (budgetLimitDaily cfg) (getTodaySpend now st)), st)"
  using assms by (auto simp: submitJob_def Let_def)

theorem submitJob_budget_gate_witness:
  "submitJob cfg3 demo_digest 1000 ''job-1'' (Some ''ep1'') cat False over_budget
     = (Inl (BudgetExceeded 50 60), over_budget)"
  using submitJob_budget_gate [of demo_digest cat "''0000000000000000''" False over_budget
      cfg3 1000 "''job-1''" "Some ''ep1''"]
  by (simp add: hashInput_cat over_budget_def getJobByHash_def getTodaySpend_def cfg3_def)

section \<open>The replacer of \<open>hashInput\<close>\<close>

lemma stringify_prune:
  "set pl \<subseteq> set ks \<Longrightarrow> stringify (Some pl) (prune ks v) = stringify (Some pl) v"
  "set pl \<subseteq> set ks \<Longrightarrow> stringify_elems (Some pl) (prune_elems ks xs) = stringify_elems (Some pl) xs"
  "set pl \<subseteq> set ks \<Longrightarrow> k \<in> set pl \<Longrightarrow>
     map_of (stringify_fields (Some pl) (prune_fields ks kvs)) k
       = map_of (stringify_fields (Some pl) kvs) k"
proof (induction ks v and ks xs and ks kvs arbitrary: and and k rule: prune_prune_elems_prune_fields.induct)
  case (6 ks kvs)
  have "\<And>k. k \<in> set pl \<Longrightarrow> map_of (stringify_fields (Some pl) (prune_fields ks kvs)) k
       = map_of (stringify_fields (Some pl) kvs) k"
    using 6 by blast
  then have m: "map (\<lambda>k. case map_of (stringify_fields (Some pl) (prune_fields ks kvs)) k of
                        None \<Rightarrow> [] | Some s \<Rightarrow> [quote k @ '':'' @ s]) pl
           = map (\<lambda>k. case map_of (stringify_fields (Some pl) kvs) k of
                        None \<Rightarrow> [] | Some s \<Rightarrow> [quote k @ '':'' @ s]) pl"
    by (intro map_cong) simp_all
  show ?case by (simp add: Let_def m del: map_eq_conv)
next
  case (10 ks k' v kvs)
  then show ?case by auto
qed simp_all

lemma set_property_list: "set (property_list xs) = set xs"
  by (induction xs rule: property_list.induct) auto

lemma map_fst_prune_fields:
  "set (map fst kvs) \<subseteq> set ks \<Longrightarrow> map fst (prune_fields ks kvs) = map fst kvs"
  by (induction kvs) auto

lemma length_prune_elems: "length (prune_elems ks xs) = length xs"
  by (induction xs) auto

lemma object_keys_prune:
  "object_keys inp = Inr ks \<Longrightarrow> object_keys (prune ks inp) = Inr ks"
  by (cases inp) (auto simp: map_fst_prune_fields length_prune_elems)

lemma normalized_prune:
  assumes "object_keys inp = Inr ks"
  shows "normalized (prune ks inp) = normalized inp"
proof -
  have "set (property_list (sort ks)) \<subseteq> set ks" by (simp add: set_property_list)
  then show ?thesis
    by (simp add: normalized_def assms object_keys_prune stringify_prune(1))
qed

lemma normalized_nested:
  "normalized nested1 = Inr (''{'' @ quote ''a'' @ '':{}}'')"
  "normalized nested2 = Inr (''{'' @ quote ''a'' @ '':{}}'')"
  by (simp_all add: normalized_def nested1_def nested2_def)


lemma inserted_row_sel [simp]:
  "job_id (inserted_row now jid ep h inp) = jid"
  "status (inserted_row now jid ep h inp) = PENDING"
  "input_hash (inserted_row now jid ep h inp) = h"
  "input (inserted_row now jid ep h inp) = inp"
  "endpoint_id (inserted_row now jid ep h inp) = ep"
  "created_at (inserted_row now jid ep h inp) = now div 1000"
  "attempts (inserted_row now jid ep h inp) = 0"
  by (simp_all add: inserted_row_def)

lemma submitJob_creates:
  assumes "hashInput H inp = Inr h"
    and "skip \<or> getJobByHash h st = None"
    and "getTodaySpend now st < budgetLimitDaily cfg"
    and "uuid \<notin> set (map job_id (jobs st))"
  shows "submitJob cfg H now uuid ep inp skip st =
           (Inr (Queued uuid PENDING),
            broadcast (JobCreated uuid PENDING)
              (st\<lparr>jobs := jobs st @ [inserted_row now uuid ep h inp]\<rparr>))"
  using assms by (auto simp: submitJob_def createJob_def Let_def)

lemma first_then_duplicate:
  assumes h1: "hashInput H a = Inr h" and h2: "hashInput H b = Inr h"
    and budget: "0 < budgetLimitDaily cfg"
  shows "submitJob cfg H t1 u1 e1 a False (init cfg) =
           (Inr (Queued u1 PENDING),
            broadcast (JobCreated u1 PENDING) ((init cfg)\<lparr>jobs := [inserted_row t1 u1 e1 h a]\<rparr>))
       \<and> submitJob cfg H t2 u2 e2 b False
            (broadcast (JobCreated u1 PENDING) ((init cfg)\<lparr>jobs := [inserted_row t1 u1 e1 h a]\<rparr>)) =
           (Inr (Deduplicated (inserted_row t1 u1 e1 h a)),
            broadcast (JobCreated u1 PENDING) ((init cfg)\<lparr>jobs := [inserted_row t1 u1 e1 h a]\<rparr>))"
proof -
  have "getJobByHash h (init cfg) = None" by (simp add: getJobByHash_def init_def)
  moreover have "getTodaySpend t1 (init cfg) = 0" by (simp add: getTodaySpend_def init_def)
  moreover have "u1 \<notin> set (map job_id (jobs (init cfg)))" by (simp add: init_def)
  ultimately have 1: "submitJob cfg H t1 u1 e1 a False (init cfg) =
           (Inr (Queued u1 PENDING),
            broadcast (JobCreated u1 PENDING)
              ((init cfg)\<lparr>jobs := jobs (init cfg) @ [inserted_row t1 u1 e1 h a]\<rparr>))"
    using h1 budget by (intro submitJob_creates) simp_all
  have j: "jobs (init cfg) = []" by (simp add: init_def)
  let ?st1 = "broadcast (JobCreated u1 PENDING) ((init cfg)\<lparr>jobs := [inserted_row t1 u1 e1 h a]\<rparr>)"
  have "getJobByHash h ?st1 = Some (inserted_row t1 u1 e1 h a)"
    by (simp add: getJobByHash_def broadcast_def dedup_status_def)
  then have 2: "submitJob cfg H t2 u2 e2 b False ?st1 = (Inr (Deduplicated (inserted_row t1 u1 e1 h a)), ?st1)"
    by (simp add: submitJob_def h2)
  show ?thesis using 1 2 by (simp add: j)
qed

text \<open>
  Claim C10. The sorted top-level keys of the input act as the property list at every
  depth: the hash of an input is the hash of the input without the nested object entries
  whose key is not a top-level key, because the two serialize alike. So the distinct inputs \<open>{"a":{"b":1}}\<close> and
  \<open>{"a":{"b":2}}\<close> have the same hash, of 16 characters when the digest has 64, and
  after the first is submitted a submission of the second returns the first's job as a
  duplicate.
\<close>

theorem hashInput_ignores_unlisted_nested_keys:
  "(object_keys inp = Inr ks \<longrightarrow>
      normalized (prune ks inp) = normalized inp
    \<and> hashInput H (prune ks inp) = hashInput H inp)
   \<and> nested1 \<noteq> nested2
   \<and> hashInput H nested1 = hashInput H nested2
   \<and> ((\<forall>s. length (H s) = 64) \<longrightarrow> (\<exists>h. hashInput H nested1 = Inr h \<and> length h = 16))
   \<and> (0 < budgetLimitDaily cfg \<longrightarrow>
        (\<exists>st1 row. submitJob cfg H t1 u1 e1 nested1 False (init cfg) = (Inr (Queued u1 PENDING), st1)
           \<and> jobs st1 = [row] \<and> job_id row = u1 \<and> input row = nested1
           \<and> submitJob cfg H t2 u2 e2 nested2 False st1 = (Inr (Deduplicated row), st1)))"
proof (intro conjI impI)
  assume k: "object_keys inp = Inr ks"
  then show "normalized (prune ks inp) = normalized inp"
    by (rule normalized_prune)
  from k show "hashInput H (prune ks inp) = hashInput H inp"
    by (simp add: hashInput_def normalized_prune)
next
  show "nested1 \<noteq> nested2" by (simp add: nested1_def nested2_def)
next
  show "hashInput H nested1 = hashInput H nested2"
    by (simp add: hashInput_def normalized_nested)
next
  assume "\<forall>s. length (H s) = 64"
  then show "\<exists>h. hashInput H nested1 = Inr h \<and> length h = 16"
    by (simp add: hashInput_def normalized_nested)
next
  assume b: "0 < budgetLimitDaily cfg"
  let ?h = "take 16 (H (''{'' @ quote ''a'' @ '':{}}''))"
  have h: "hashInput H nested1 = Inr ?h" "hashInput H nested2 = Inr ?h"
    by (simp_all add: hashInput_def normalized_nested)
  let ?row = "inserted_row t1 u1 e1 ?h nested1"
  let ?st1 = "broadcast (JobCreated u1 PENDING) ((init cfg)\<lparr>jobs := [?row]\<rparr>)"
  from first_then_duplicate [OF h b, of t1 u1 e1 t2 u2 e2]
  have "submitJob cfg H t1 u1 e1 nested1 False (init cfg) = (Inr (Queued u1 PENDING), ?st1)"
    and "submitJob cfg H t2 u2 e2 nested2 False ?st1 = (Inr (Deduplicated ?row), ?st1)"
    by blast+
  moreover have "jobs ?st1 = [?row]" by (simp add: broadcast_def)
  moreover have "job_id ?row = u1" "input ?row = nested1" by simp_all
  ultimately show "\<exists>st1 row. submitJob cfg H t1 u1 e1 nested1 False (init cfg) = (Inr (Queued u1 PENDING), st1)
           \<and> jobs st1 = [row] \<and> job_id row = u1 \<and> input row = nested1
           \<and> submitJob cfg H t2 u2 e2 nested2 False st1 = (Inr (Deduplicated row), st1)"
    by blast
qed

theorem hashInput_ignores_unlisted_nested_keys_witness:
  "hashInput demo_digest (prune [''a''] nested1) = hashInput demo_digest nested1
   \<and> prune [''a''] nested1 = JObj [(''a'', JObj [])]
   \<and> hashInput demo_digest nested1 = Inr ''8888888888888888''
   \<and> hashInput demo_digest nested2 = Inr ''8888888888888888''
   \<and> (\<exists>st1 row. submitJob cfg3 demo_digest 1000 ''job-1'' (Some ''ep1'') nested1 False (init cfg3)
                     = (Inr (Queued ''job-1'' PENDING), st1)
           \<and> jobs st1 = [row] \<and> job_id row = ''job-1'' \<and> input row = nested1
           \<and> submitJob cfg3 demo_digest 2000 ''job-2'' (Some ''ep1'') nested2 False st1
                = (Inr (Deduplicated row), st1))"
proof -
  have k: "object_keys nested1 = Inr [''a'']" by (simp add: nested1_def)
  have l: "\<forall>s. length (demo_digest s) = 64" by (simp add: demo_digest_def)
  have b: "0 < budgetLimitDaily cfg3" by (simp add: cfg3_def)
  have p: "prune [''a''] nested1 = JObj [(''a'', JObj [])]" by (simp add: nested1_def)
  have e: "hashInput demo_digest nested1 = Inr ''8888888888888888''" by code_simp
  from hashInput_ignores_unlisted_nested_keys
    [of nested1 "[''a'']" demo_digest cfg3 1000 "''job-1''" "Some ''ep1''" 2000 "''job-2''" "Some ''ep1''"]
  show ?thesis using k l b p e by simp
qed

section \<open>Cancellation\<close>

lemma parse_output_error: "parse_output P c = Inl e \<Longrightarrow> e = SyntaxError"
  by (cases c) (auto split: if_splits option.splits)

lemma getJob_cases:
  "(getJob P jobId st = Inr None \<and> jobId \<notin> set (map job_id (jobs st)))
   \<or> (getJob P jobId st = Inl SyntaxError \<and> jobId \<in> set (map job_id (jobs st)))
   \<or> (\<exists>job. getJob P jobId st = Inr (Some job) \<and> job \<in> set (jobs st) \<and> job_id job = jobId
           \<and> find (\<lambda>r. job_id r = jobId) (jobs st) = Some job
           \<and> (\<exists>v. parse_output P (job_output job) = Inr v))"
proof (cases "find (\<lambda>r. job_id r = jobId) (jobs st)")
  case None
  then have "jobId \<notin> set (map job_id (jobs st))" by (auto simp: find_None_iff)
  then show ?thesis using None by (simp add: getJob_def)
next
  case (Some job)
  then have j: "job \<in> set (jobs st)" "job_id job = jobId"
    by (auto simp: find_Some_iff in_set_conv_nth)
  then have m: "jobId \<in> set (map job_id (jobs st))" by force
  show ?thesis
  proof (cases "parse_output P (job_output job)")
    case (Inl e)
    then have "e = SyntaxError" by (rule parse_output_error)
    then show ?thesis using Some Inl m by (simp add: getJob_def)
  next
    case (Inr v)
    then show ?thesis using Some j by (simp add: getJob_def)
  qed
qed

lemma find_set_cancelled:
  "find (\<lambda>r. job_id r = jobId) (map (set_cancelled jobId) xs)
     = map_option (set_cancelled jobId) (find (\<lambda>r. job_id r = jobId) xs)"
  by (induction xs) (auto simp: set_cancelled_def)

lemma set_cancelled_idem: "map (set_cancelled jobId) (map (set_cancelled jobId) xs) = map (set_cancelled jobId) xs"
  by (induction xs) (auto simp: set_cancelled_def)

lemma mark_cancelled_eq:
  "mark_cancelled jobId st =
     (Inr (), broadcast (JobCancelled jobId) (st\<lparr>jobs := map (set_cancelled jobId) (jobs st)\<rparr>))"
  by (simp add: mark_cancelled_def updateJob_def set_cancelled_def [abs_def])

lemma map_has_delete: "\<not> map_has k (map_delete k m)"
  by (auto simp: map_has_def map_delete_def)

lemma cancel_again:
  assumes f: "find (\<lambda>r. job_id r = jobId) xs = Some job"
    and p: "parse_output P (job_output job) = Inr v"
    and c: "\<not> (truthy (runpod_job_id job) \<and> map_has jobId (activeJobs s))"
    and x: "jobs s = map (set_cancelled jobId) xs"
  shows "cancelJob P ce2 jobId s = (Inr (), broadcast (JobCancelled jobId) s)"
proof -
  have "find (\<lambda>r. job_id r = jobId) (jobs s) = Some (set_cancelled jobId job)"
    by (simp add: x find_set_cancelled f)
  moreover have "job_output (set_cancelled jobId job) = job_output job"
      "runpod_job_id (set_cancelled jobId job) = runpod_job_id job"
    by (simp_all add: set_cancelled_def)
  ultimately have "cancelJob P ce2 jobId s = mark_cancelled jobId s"
    using p c by (auto simp: cancelJob_def getJob_def)
  moreover have "s\<lparr>jobs := map (set_cancelled jobId) (jobs s)\<rparr> = s"
  proof -
    have "map (set_cancelled jobId) (jobs s) = jobs s"
      unfolding x by (rule set_cancelled_idem)
    then have "s\<lparr>jobs := map (set_cancelled jobId) (jobs s)\<rparr> = s\<lparr>jobs := jobs s\<rparr>"
      by (simp only:)
    then show ?thesis by (simp only: qstate.update_convs qstate.surjective [symmetric]) auto
  qed
  ultimately show ?thesis by (simp add: mark_cancelled_eq)
qed

lemma cancelJob_found:
  "getJob P jobId st = Inr (Some job) \<Longrightarrow>
   cancelJob P ce jobId st =
     (if truthy (runpod_job_id job) \<and> map_has jobId (activeJobs st) then
        (case ce of
           Some message \<Rightarrow> (Inl (RemoteError message), st)
         | None \<Rightarrow> mark_cancelled jobId (st\<lparr>activeJobs := map_delete jobId (activeJobs st)\<rparr>))
      else mark_cancelled jobId st)"
  by (simp add: cancelJob_def)

lemma cancelJob_ok_state:
  assumes g: "getJob P jobId st = Inr (Some job)"
    and ok: "cancelJob P ce jobId st = (Inr (), st1)"
  shows "jobs st1 = map (set_cancelled jobId) (jobs st)
       \<and> \<not> (truthy (runpod_job_id job) \<and> map_has jobId (activeJobs st1))"
proof (cases "truthy (runpod_job_id job) \<and> map_has jobId (activeJobs st)")
  case True
  show ?thesis
  proof (cases ce)
    case None
    have "cancelJob P ce jobId st
            = mark_cancelled jobId (st\<lparr>activeJobs := map_delete jobId (activeJobs st)\<rparr>)"
      using True None by (simp add: cancelJob_found [OF g])
    then have "st1 = broadcast (JobCancelled jobId)
        (st\<lparr>activeJobs := map_delete jobId (activeJobs st),
            jobs := map (set_cancelled jobId) (jobs st)\<rparr>)"
      using ok by (simp add: mark_cancelled_eq)
    then show ?thesis by (simp add: broadcast_def map_has_delete)
  next
    case (Some message)
    have "cancelJob P ce jobId st = (Inl (RemoteError message), st)"
      using True Some by (simp add: cancelJob_found [OF g])
    then show ?thesis using ok by simp
  qed
next
  case False
  have "cancelJob P ce jobId st = mark_cancelled jobId st"
    by (simp only: cancelJob_found [OF g] False if_False)
  then have "st1 = broadcast (JobCancelled jobId) (st\<lparr>jobs := map (set_cancelled jobId) (jobs st)\<rparr>)"
    using ok by (simp add: mark_cancelled_eq)
  then show ?thesis using False by (simp add: broadcast_def)
qed

lemma cancelJob_found_not_JobNotFound:
  "getJob P jobId st = Inr (Some job) \<Longrightarrow> fst (cancelJob P ce jobId st) \<noteq> Inl JobNotFound"
  by (cases ce) (simp_all add: cancelJob_found mark_cancelled_def)

text \<open>
  Claim C8. \<open>cancelJob\<close> fails with the not-found error exactly when no job has the id.
  When a call on an existing job has succeeded, a second call on the same id succeeds as
  well, whatever the remote side would answer; it changes nothing but the event log, which
  gets one more \<open>job:cancelled\<close>, and the job is there with status CANCELLED after
  both calls.
\<close>

theorem cancelJob_not_found_and_repeat:
  "(fst (cancelJob P ce jobId st) = Inl JobNotFound \<longleftrightarrow> jobId \<notin> set (map job_id (jobs st)))
   \<and> (cancelJob P ce jobId st = (Inr (), st1) \<longrightarrow>
        cancelJob P ce2 jobId st1 = (Inr (), broadcast (JobCancelled jobId) st1)
      \<and> jobs (broadcast (JobCancelled jobId) st1) = jobs st1
      \<and> (\<exists>r \<in> set (jobs st1). job_id r = jobId)
      \<and> (\<forall>r \<in> set (jobs st1). job_id r = jobId \<longrightarrow> status r = CANCELLED))"
proof -
  consider (none) "getJob P jobId st = Inr None" "jobId \<notin> set (map job_id (jobs st))"
    | (bad) "getJob P jobId st = Inl SyntaxError" "jobId \<in> set (map job_id (jobs st))"
    | (found) job v where "getJob P jobId st = Inr (Some job)" "job \<in> set (jobs st)"
        "job_id job = jobId" "find (\<lambda>r. job_id r = jobId) (jobs st) = Some job"
        "parse_output P (job_output job) = Inr v"
    using getJob_cases [of P jobId st] by (elim disjE exE conjE) blast+
  then show ?thesis
  proof cases
    case none
    then show ?thesis by (simp add: cancelJob_def)
  next
    case bad
    then show ?thesis by (simp add: cancelJob_def)
  next
    case found
    have nf: "fst (cancelJob P ce jobId st) \<noteq> Inl JobNotFound"
      using found(1) by (rule cancelJob_found_not_JobNotFound)
    have mem: "jobId \<in> set (map job_id (jobs st))" using found(2,3) by force
    have second: "cancelJob P ce2 jobId st1 = (Inr (), broadcast (JobCancelled jobId) st1)
        \<and> (\<exists>r \<in> set (jobs st1). job_id r = jobId)
        \<and> (\<forall>r \<in> set (jobs st1). job_id r = jobId \<longrightarrow> status r = CANCELLED)"
      if ok: "cancelJob P ce jobId st = (Inr (), st1)"
    proof -
      from cancelJob_ok_state [OF found(1) ok]
      have x: "jobs st1 = map (set_cancelled jobId) (jobs st)"
        and c: "\<not> (truthy (runpod_job_id job) \<and> map_has jobId (activeJobs st1))"
        by blast+
      have a: "cancelJob P ce2 jobId st1 = (Inr (), broadcast (JobCancelled jobId) st1)"
        by (rule cancel_again [OF found(4,5) c x])
      have "set_cancelled jobId job \<in> set (jobs st1)" unfolding x using found(2) by simp
      moreover have "job_id (set_cancelled jobId job) = jobId"
        using found(3) by (simp add: set_cancelled_def)
      ultimately have b: "\<exists>r \<in> set (jobs st1). job_id r = jobId" by blast
      have d: "\<forall>r \<in> set (jobs st1). job_id r = jobId \<longrightarrow> status r = CANCELLED"
      proof (intro ballI impI)
        fix r assume r: "r \<in> set (jobs st1)" "job_id r = jobId"
        then obtain r0 where r0: "r = set_cancelled jobId r0" unfolding x by auto
        show "status r = CANCELLED"
          using r(2) unfolding r0 by (cases "job_id r0 = jobId") (simp_all add: set_cancelled_def)
      qed
      show ?thesis using a b d by blast
    qed
    have e: "jobs (broadcast (JobCancelled jobId) st1) = jobs st1" by (simp add: broadcast_def)
    show ?thesis
    proof (intro conjI impI)
      show "fst (cancelJob P ce jobId st) = Inl JobNotFound \<longleftrightarrow> jobId \<notin> set (map job_id (jobs st))"
        using nf mem by simp
    next
      assume ok: "cancelJob P ce jobId st = (Inr (), st1)"
      from second [OF ok]
      show "cancelJob P ce2 jobId st1 = (Inr (), broadcast (JobCancelled jobId) st1)"
        and "\<exists>r \<in> set (jobs st1). job_id r = jobId"
        and "\<forall>r \<in> set (jobs st1). job_id r = jobId \<longrightarrow> status r = CANCELLED"
        by blast+
    next
      show "jobs (broadcast (JobCancelled jobId) st1) = jobs st1" by (rule e)
    qed
  qed
qed

theorem cancelJob_not_found_and_repeat_witness:
  "fst (cancelJob (\<lambda>s. None) None ''job-9'' one_job) = Inl JobNotFound
   \<and> cancelJob (\<lambda>s. None) None ''job-1'' one_job
       = (Inr (), broadcast (JobCancelled ''job-1'') (one_job\<lparr>jobs := [cat_row\<lparr>status := CANCELLED\<rparr>]\<rparr>))
   \<and> cancelJob (\<lambda>s. None) (Some ''timeout'') ''job-1''
         (broadcast (JobCancelled ''job-1'') (one_job\<lparr>jobs := [cat_row\<lparr>status := CANCELLED\<rparr>]\<rparr>))
       = (Inr (), broadcast (JobCancelled ''job-1'')
           (broadcast (JobCancelled ''job-1'') (one_job\<lparr>jobs := [cat_row\<lparr>status := CANCELLED\<rparr>]\<rparr>)))"
proof -
  have 1: "cancelJob (\<lambda>s. None) None ''job-1'' one_job
       = (Inr (), broadcast (JobCancelled ''job-1'') (one_job\<lparr>jobs := [cat_row\<lparr>status := CANCELLED\<rparr>]\<rparr>))"
    by (simp add: cancelJob_def getJob_def mark_cancelled_def updateJob_def one_job_def
        cat_row_def broadcast_def)
  have 2: "''job-9'' \<notin> set (map job_id (jobs one_job))"
    by (simp add: one_job_def cat_row_def)
  from cancelJob_not_found_and_repeat [of "\<lambda>s. None" None "''job-9''" one_job]
    cancelJob_not_found_and_repeat [of "\<lambda>s. None" None "''job-1''" one_job
      "broadcast (JobCancelled ''job-1'') (one_job\<lparr>jobs := [cat_row\<lparr>status := CANCELLED\<rparr>]\<rparr>)"
      "Some ''timeout''"]
  show ?thesis using 1 2 by simp
qed

section \<open>Dead-lettering in \<open>processJob\<close>\<close>

lemma two_failures_eval:
  "jobs two_failures = [retried_row]"
  "dead_letter_queue two_failures = []"
  "rateLimitTokens two_failures = 0"
  "activeJobs two_failures = []"
  unfolding two_failures_def retried_row_def by code_simp+

lemma dead_run_eval:
  "jobs dead_run = [retried_row\<lparr>status := FAILED, attempts := 3\<rparr>]"
  "dead_letter_queue dead_run = [dead_letter]"
  "cost_log dead_run = []"
  unfolding dead_run_def retried_row_def dead_letter_def by code_simp+

text \<open>
  Claim C2. When a dispatch has its token and \<open>runJob\<close> throws, the attempt count has
  reached \<open>maxRetryAttempts\<close>, and the dead-letter key is free, \<open>processJob\<close> rejects,
  sets the job's row to FAILED with the error message and the new attempt count, and
  appends exactly one dead-letter record, which holds the error message. The attempt count
  of that record is the count the fetched row had before this attempt, one less than the
  count written to the job's row: with \<open>maxRetryAttempts = 3\<close> the row ends with 3 and the
  record with 2. The record's \<open>endpoint_id\<close> is \<open>NULL\<close>.
\<close>

theorem processJob_dead_letter_attempts:
  assumes acquired: "fst (acquireRateLimitToken cfg (d_sleeps env) (rateLimitTokens st))"
    and failed: "d_run env = Inl message"
    and last: "maxRetryAttempts cfg \<le> int (attempts job) + 1"
    and fresh: "''dlq_'' @ show_int (d_fail_now env) \<notin> set (map dlq_id (dead_letter_queue st))"
  shows "fst (processJob cfg env job st) = Rejected
       \<and> dead_letter_queue (snd (processJob cfg env job st)) = dead_letter_queue st @
           [\<lparr>dlq_id = ''dlq_'' @ show_int (d_fail_now env), original_job_id = Some (job_id job),
             dlq_endpoint_id = None, job_data = row_object job, dlq_error = message,
             dlq_attempts = Some (int (attempts job)),
             dlq_created_at = d_fail_now env div 1000\<rparr>]
       \<and> jobs (snd (processJob cfg env job st)) =
           map (\<lambda>r. if job_id r = job_id job
                    then r\<lparr>status := FAILED, started_at := Some (d_now env),
                           error_msg := Some message, attempts := attempts job + 1\<rparr>
                    else r) (jobs st)"
proof -
  let ?st3 = "(broadcast (JobRunning (job_id job))
      (updateJob (job_id job)
         (\<lambda>r. r\<lparr>status := RUNNING, started_at := Some (d_now env), attempts := attempts job + 1\<rparr>) st))
      \<lparr>rateLimitTokens := snd (acquireRateLimitToken cfg (d_sleeps env) (rateLimitTokens st))\<rparr>"
  let ?st4 = "updateJob (job_id job)
      (\<lambda>r. r\<lparr>status := FAILED, error_msg := Some message, attempts := attempts job + 1\<rparr>) ?st3"
  have p: "processJob cfg env job st =
      (Rejected, broadcast (JobFailed (job_id job) (Some message) True)
         (?st4\<lparr>dead_letter_queue := dead_letter_queue ?st4 @
       [\<lparr>dlq_id = ''dlq_'' @ show_int (d_fail_now env), original_job_id = Some (job_id job),
         dlq_endpoint_id = None, job_data = row_object job, dlq_error = message,
         dlq_attempts = Some (int (attempts job)), dlq_created_at = d_fail_now env div 1000\<rparr>]\<rparr>))"
    using acquired failed last fresh
    by (simp add: processJob_def Let_def addToDeadLetter_def row_object_props)
  show ?thesis
    unfolding p by (simp add: o_def)
qed

theorem processJob_dead_letter_attempts_witness:
  "selected_jobs cfg3 two_failures = [retried_row]
   \<and> attempts retried_row + 1 = 3 \<and> maxRetryAttempts cfg3 = 3
   \<and> map dlq_attempts (dead_letter_queue
         (snd (processJob cfg3 (failing ''job-1'') retried_row two_failures))) = [Some 2]
   \<and> map status (jobs (snd (processJob cfg3 (failing ''job-1'') retried_row two_failures)))
       = [FAILED]
   \<and> map attempts (jobs (snd (processJob cfg3 (failing ''job-1'') retried_row two_failures)))
       = [3]"
  using processJob_dead_letter_attempts [of cfg3 "failing ''job-1''" two_failures "''boom''"
      retried_row]
  by (simp add: two_failures_eval selected_jobs_def getPendingJobs_def cfg3_def failing_def
      refillTokens_def retried_row_def cat_row_def)

section \<open>The store under the operations\<close>






lemma length_map_set: "length (map_set k v m) \<le> Suc (length m)"
  by (simp add: map_set_def)

lemma length_map_delete: "length (map_delete k m) \<le> length m"
  by (simp add: map_delete_def)

lemma processJob_effect:
  "\<exists>F. keeps_key F
     \<and> jobs (snd (processJob cfg env job st))
        = map (\<lambda>r. if job_id r = job_id job then F r else r) (jobs st)
     \<and> length (activeJobs (snd (processJob cfg env job st))) \<le> length (activeJobs st) + 1"
proof (cases "fst (acquireRateLimitToken cfg (d_sleeps env) (rateLimitTokens st))")
  case False
  show ?thesis
    by (rule exI [of _ "\<lambda>r. r\<lparr>status := RUNNING, started_at := Some (d_now env),
                          attempts := attempts job + 1\<rparr>"])
       (use False in \<open>simp add: processJob_def Let_def keeps_key_def\<close>)
next
  case True
  show ?thesis
  proof (cases "d_run env")
    case (Inr rid)
    show ?thesis
      by (rule exI [of _ "\<lambda>r. r\<lparr>status := IN_QUEUE, started_at := Some (d_now env),
                          attempts := attempts job + 1, runpod_job_id := rid\<rparr>"])
         (use True Inr in \<open>simp add: processJob_def Let_def keeps_key_def length_map_set o_def\<close>)
  next
    case (Inl message)
    show ?thesis
    proof (cases "maxRetryAttempts cfg \<le> int (attempts job + 1)")
      case False
      show ?thesis
        by (rule exI [of _ "\<lambda>r. r\<lparr>status := PENDING, started_at := Some (d_now env),
                          attempts := attempts job + 1, error_msg := Some message\<rparr>"])
           (use True Inl False in \<open>simp add: processJob_def Let_def keeps_key_def o_def\<close>)
    next
      case last: True
      show ?thesis
        by (rule exI [of _ "\<lambda>r. r\<lparr>status := FAILED, started_at := Some (d_now env),
                          attempts := attempts job + 1, error_msg := Some message\<rparr>"])
           (use True Inl last in \<open>simp add: processJob_def Let_def keeps_key_def o_def
              addToDeadLetter_def\<close>)
    qed
  qed
qed







lemma poll_one_effect:
  "(jobs (poll_one penv entry st) = jobs st
    \<or> (\<exists>s. \<not> non_terminal s
          \<and> (\<exists>F. keeps_key F \<and> (\<forall>r. status (F r) = s)
               \<and> jobs (poll_one penv entry st)
                  = map (\<lambda>r. if job_id r = fst entry then F r else r) (jobs st))))
   \<and> length (activeJobs (poll_one penv entry st)) \<le> length (activeJobs st)"
proof (cases "p_result (penv (fst entry))")
  case PollThrows
  then show ?thesis by (simp add: poll_one_def Let_def)
next
  case (PollStatus rs out err)
  show ?thesis
  proof (cases rs)
    case R_OTHER
    then show ?thesis using PollStatus by (simp add: poll_one_def Let_def)
  next
    case R_FAILED
    have j: "jobs (poll_one penv entry st) = map (\<lambda>r. if job_id r = fst entry
        then r\<lparr>status := FAILED, error_msg := Some (or_default err ''Job failed''),
               completed_at := Some (p_now (penv (fst entry)))\<rparr> else r) (jobs st)"
      and l: "length (activeJobs (poll_one penv entry st)) \<le> length (activeJobs st)"
      using PollStatus R_FAILED by (simp_all add: poll_one_def Let_def length_map_delete)
    let ?F = "\<lambda>r. r\<lparr>status := FAILED, error_msg := Some (or_default err ''Job failed''),
               completed_at := Some (p_now (penv (fst entry)))\<rparr>"
    have "\<not> non_terminal FAILED" by (simp add: non_terminal_def)
    moreover have "keeps_key ?F" by (simp add: keeps_key_def)
    moreover have "\<forall>r. status (?F r) = FAILED" by simp
    ultimately have "\<exists>s. \<not> non_terminal s
          \<and> (\<exists>F. keeps_key F \<and> (\<forall>r. status (F r) = s)
               \<and> jobs (poll_one penv entry st)
                  = map (\<lambda>r. if job_id r = fst entry then F r else r) (jobs st))"
      using j by blast
    then show ?thesis using l by blast
  next
    case R_COMPLETED
    show ?thesis
    proof (cases "bind_output out")
      case (Inl e)
      then show ?thesis using PollStatus R_COMPLETED by (simp add: poll_one_def Let_def)
    next
      case (Inr col)
      have j: "jobs (poll_one penv entry st) = map (\<lambda>r. if job_id r = fst entry
          then r\<lparr>status := COMPLETED, job_output := col,
                 duration_ms := Some (p_now (penv (fst entry)) - startTime (snd entry)),
                 completed_at := Some (p_now (penv (fst entry)))\<rparr> else r) (jobs st)"
        and l: "length (activeJobs (poll_one penv entry st)) \<le> length (activeJobs st)"
        using PollStatus R_COMPLETED Inr by (simp_all add: poll_one_def Let_def length_map_delete)
      let ?F = "\<lambda>r. r\<lparr>status := COMPLETED, job_output := col,
                 duration_ms := Some (p_now (penv (fst entry)) - startTime (snd entry)),
                 completed_at := Some (p_now (penv (fst entry)))\<rparr>"
      have "\<not> non_terminal COMPLETED" by (simp add: non_terminal_def)
      moreover have "keeps_key ?F" by (simp add: keeps_key_def)
      moreover have "\<forall>r. status (?F r) = COMPLETED" by simp
      ultimately have "\<exists>s. \<not> non_terminal s
          \<and> (\<exists>F. keeps_key F \<and> (\<forall>r. status (F r) = s)
               \<and> jobs (poll_one penv entry st)
                  = map (\<lambda>r. if job_id r = fst entry then F r else r) (jobs st))"
        using j by blast
      then show ?thesis using l by blast
    qed
  qed
qed




lemma fold_poll_length:
  "length (activeJobs (fold (poll_one penv) es st)) \<le> length (activeJobs st)"
proof (induction es arbitrary: st)
  case Nil
  show ?case by simp
next
  case (Cons e es)
  have "length (activeJobs (poll_one penv e st)) \<le> length (activeJobs st)"
    using poll_one_effect [of penv e st] by blast
  then show ?case using Cons [of "poll_one penv e st"] by simp
qed


lemma dispatch_all_length:
  "length (activeJobs (snd (dispatch_all cfg denv js st))) \<le> length (activeJobs st) + length js"
proof (induction js arbitrary: st)
  case Nil
  show ?case by simp
next
  case (Cons job rest)
  let ?st' = "snd (processJob cfg (denv (job_id job)) job st)"
  have "length (activeJobs ?st') \<le> length (activeJobs st) + 1"
    using processJob_effect [of cfg "denv (job_id job)" job st] by blast
  moreover have "length (activeJobs (snd (dispatch_all cfg denv rest ?st')))
      \<le> length (activeJobs ?st') + length rest" by (rule Cons.IH)
  ultimately show ?case by (simp add: Let_def)
qed

lemma getPendingJobs_set:
  "set (getPendingJobs limit st) \<subseteq> {r \<in> set (jobs st). status r = PENDING}"
proof -
  have "set (take n (sort_key created_at (filter (\<lambda>r. status r = PENDING) (jobs st))))
      \<subseteq> {r \<in> set (jobs st). status r = PENDING}" for n
    using set_take_subset [of n "sort_key created_at (filter (\<lambda>r. status r = PENDING) (jobs st))"]
    by auto
  then show ?thesis by (auto simp: getPendingJobs_def Let_def)
qed


lemma getPendingJobs_sorted: "sorted (map created_at (getPendingJobs limit st))"
proof -
  let ?ys = "sort_key created_at (filter (\<lambda>r. status r = PENDING) (jobs st))"
  have s: "sorted (map created_at ?ys)" by (rule sorted_sort_key)
  have "sorted (map created_at (take n ?ys))" for n
    using s by (simp add: take_map [symmetric])
  then show ?thesis using s by (simp add: getPendingJobs_def Let_def)
qed

lemma getPendingJobs_length:
  "0 \<le> limit \<Longrightarrow> int (length (getPendingJobs limit st)) \<le> limit"
  by (simp add: getPendingJobs_def Let_def)

lemma getPendingJobs_oldest:
  assumes "j \<in> set (getPendingJobs limit st)"
    and "r \<in> set (jobs st)" and "status r = PENDING" and "r \<notin> set (getPendingJobs limit st)"
  shows "created_at j \<le> created_at r"
proof -
  let ?ys = "sort_key created_at (filter (\<lambda>r. status r = PENDING) (jobs st))"
  have r: "r \<in> set ?ys" using assms(2,3) by simp
  show ?thesis
  proof (cases "limit < 0")
    case True
    then show ?thesis using assms(4) r by (simp add: getPendingJobs_def Let_def)
  next
    case False
    let ?n = "nat limit"
    have g: "getPendingJobs limit st = take ?n ?ys"
      using False by (simp add: getPendingJobs_def Let_def)
    have "sorted (map created_at (take ?n ?ys @ drop ?n ?ys))"
      by simp
    then have le: "\<forall>a \<in> set (take ?n ?ys). \<forall>b \<in> set (drop ?n ?ys). created_at a \<le> created_at b"
      by (simp add: sorted_append del: append_take_drop_id)
    have "r \<in> set (take ?n ?ys) \<union> set (drop ?n ?ys)"
      using r by (simp only: set_append [symmetric] append_take_drop_id)
    then have "r \<in> set (drop ?n ?ys)" using assms(4) g by simp
    then show ?thesis using le assms(1) g by simp
  qed
qed




lemma process_active_ok:
  assumes "active_ok cfg st"
  shows "active_ok cfg (process cfg denv penv st)"
proof (cases "isProcessing st")
  case True
  then show ?thesis using assms by (simp add: process_def)
next
  case False
  let ?st1 = "st\<lparr>isProcessing := True\<rparr>"
  let ?js = "selected_jobs cfg ?st1"
  let ?d = "dispatch_all cfg denv ?js ?st1"
  have lim: "0 \<le> maxConcurrentJobs cfg - int (length (activeJobs ?st1))"
    using assms by (simp add: active_ok_def)
  have "int (length ?js) \<le> maxConcurrentJobs cfg - int (length (activeJobs ?st1))"
    unfolding selected_jobs_def using lim by (rule getPendingJobs_length)
  moreover have "length (activeJobs (snd ?d)) \<le> length (activeJobs ?st1) + length ?js"
    by (rule dispatch_all_length)
  ultimately have a2: "int (length (activeJobs (snd ?d))) \<le> maxConcurrentJobs cfg" by simp
  have "length (activeJobs (pollActiveJobs penv (snd ?d))) \<le> length (activeJobs (snd ?d))"
    unfolding pollActiveJobs_def by (rule fold_poll_length)
  then have a3: "int (length (activeJobs (pollActiveJobs penv (snd ?d)))) \<le> maxConcurrentJobs cfg"
    using a2 by simp
  show ?thesis using False a2 a3 by (simp add: process_def Let_def active_ok_def)
qed

lemma cancelJob_effect:
  "(jobs (snd (cancelJob P ce jobId st)) = jobs st
    \<or> jobs (snd (cancelJob P ce jobId st)) = map (\<lambda>r. if job_id r = jobId then r\<lparr>status := CANCELLED\<rparr> else r) (jobs st))
   \<and> length (activeJobs (snd (cancelJob P ce jobId st))) \<le> length (activeJobs st)"
proof (cases "getJob P jobId st")
  case (Inl e)
  then show ?thesis by (simp add: cancelJob_def)
next
  case (Inr found)
  show ?thesis
  proof (cases found)
    case None
    then show ?thesis using Inr by (simp add: cancelJob_def)
  next
    case (Some job)
    have g: "getJob P jobId st = Inr (Some job)" using Inr Some by simp
    show ?thesis
    proof (cases "truthy (runpod_job_id job) \<and> map_has jobId (activeJobs st)")
      case False
      have "cancelJob P ce jobId st = mark_cancelled jobId st"
        by (simp only: cancelJob_found [OF g] False if_False)
      then show ?thesis by (simp add: mark_cancelled_def)
    next
      case True
      show ?thesis
      proof (cases ce)
        case None
        then have "cancelJob P ce jobId st
            = mark_cancelled jobId (st\<lparr>activeJobs := map_delete jobId (activeJobs st)\<rparr>)"
          using True by (simp add: cancelJob_found [OF g])
        then show ?thesis by (simp add: mark_cancelled_def length_map_delete)
      next
        case (Some message)
        then have "cancelJob P ce jobId st = (Inl (RemoteError message), st)"
          using True by (simp add: cancelJob_found [OF g])
        then show ?thesis by simp
      qed
    qed
  qed
qed




lemma submitJob_effect:
  "snd (submitJob cfg H now uuid ep inp skip st) = st
   \<or> (\<exists>h. (skip \<or> getJobByHash h st = None) \<and> uuid \<notin> set (map job_id (jobs st))
          \<and> snd (submitJob cfg H now uuid ep inp skip st)
             = broadcast (JobCreated uuid PENDING)
                 (st\<lparr>jobs := jobs st @ [inserted_row now uuid ep h inp]\<rparr>))"
proof (cases "hashInput H inp")
  case (Inl e)
  then show ?thesis by (simp add: submitJob_def)
next
  case (Inr h)
  show ?thesis
  proof (cases "if skip then None else getJobByHash h st")
    case (Some existing)
    then show ?thesis using Inr by (simp add: submitJob_def)
  next
    case None
    then have n: "skip \<or> getJobByHash h st = None" by (simp split: if_splits)
    show ?thesis
    proof (cases "budgetLimitDaily cfg \<le> getTodaySpend now st")
      case True
      then show ?thesis using Inr None by (simp add: submitJob_def Let_def)
    next
      case False
      show ?thesis
      proof (cases "uuid \<in> set (map job_id (jobs st))")
        case True
        then show ?thesis using Inr None False by (simp add: submitJob_def Let_def createJob_def)
      next
        case fresh: False
        have "snd (submitJob cfg H now uuid ep inp skip st)
             = broadcast (JobCreated uuid PENDING)
                 (st\<lparr>jobs := jobs st @ [inserted_row now uuid ep h inp]\<rparr>)"
          using Inr None False fresh by (simp add: submitJob_def Let_def createJob_def)
        then show ?thesis using n fresh by blast
      qed
    qed
  qed
qed

lemma submitJob_active [simp]:
  "activeJobs (snd (submitJob cfg H now uuid ep inp skip st)) = activeJobs st"
  using submitJob_effect [of cfg H now uuid ep inp skip st] by auto

lemma retryDeadLetter_active [simp]:
  "activeJobs (snd (retryDeadLetter cfg H now uuid dlqId st)) = activeJobs st"
  by (simp add: retryDeadLetter_def Let_def split: option.splits)






lemma step_active_ok: "active_ok cfg st \<Longrightarrow> active_ok cfg (step cfg lib a st)"
proof (cases a)
  case (Cancel ce jobId)
  assume "active_ok cfg st"
  then show ?thesis
    using Cancel cancelJob_effect [of "json_parse lib" ce jobId st] by (simp add: active_ok_def)
next
  case (Tick denv penv)
  assume "active_ok cfg st"
  then show ?thesis using Tick by (simp add: process_active_ok)
qed (simp_all add: active_ok_def logCost_def)

lemma run_active_ok: "active_ok cfg st \<Longrightarrow> active_ok cfg (run cfg lib acts st)"
  unfolding run_def by (induction acts arbitrary: st) (simp_all add: step_active_ok)

section \<open>Selection of the pending jobs\<close>

text \<open>
  Claim C4, amended. With \<open>maxConcurrentJobs \<ge> 0\<close>, in every state a sequence of
  operations reaches from a state with an empty active table, the jobs a tick selects
  are PENDING rows of the store, in ascending order of creation time, none created later
  than a PENDING row left behind, and at most \<open>maxConcurrentJobs\<close> minus the number of
  active jobs; that number never exceeds \<open>maxConcurrentJobs\<close>, and when it reaches it no
  job is selected.
\<close>

theorem selected_jobs_oldest_pending_capped:
  assumes "0 \<le> maxConcurrentJobs cfg" and "activeJobs st0 = []"
  shows "(\<forall>j \<in> set (selected_jobs cfg (run cfg lib acts st0)).
            j \<in> set (jobs (run cfg lib acts st0)) \<and> status j = PENDING)
       \<and> sorted (map created_at (selected_jobs cfg (run cfg lib acts st0)))
       \<and> (\<forall>j \<in> set (selected_jobs cfg (run cfg lib acts st0)).
            \<forall>r \<in> set (jobs (run cfg lib acts st0)).
              status r = PENDING \<and> r \<notin> set (selected_jobs cfg (run cfg lib acts st0))
              \<longrightarrow> created_at j \<le> created_at r)
       \<and> int (length (selected_jobs cfg (run cfg lib acts st0)))
            \<le> maxConcurrentJobs cfg - int (length (activeJobs (run cfg lib acts st0)))
       \<and> int (length (activeJobs (run cfg lib acts st0))) \<le> maxConcurrentJobs cfg
       \<and> (maxConcurrentJobs cfg \<le> int (length (activeJobs (run cfg lib acts st0)))
            \<longrightarrow> selected_jobs cfg (run cfg lib acts st0) = [])"
proof -
  define st where "st = run cfg lib acts st0"
  define limit where "limit = maxConcurrentJobs cfg - int (length (activeJobs st))"
  have "active_ok cfg st0" using assms by (simp add: active_ok_def)
  then have a: "active_ok cfg st"
    unfolding st_def by (rule run_active_ok)
  then have l: "0 \<le> limit" by (simp add: limit_def active_ok_def)
  have sel: "selected_jobs cfg st = getPendingJobs limit st"
    by (simp add: selected_jobs_def limit_def)
  have 1: "\<forall>j \<in> set (selected_jobs cfg st). j \<in> set (jobs st) \<and> status j = PENDING"
    unfolding sel using getPendingJobs_set [of limit st] by blast
  have 2: "sorted (map created_at (selected_jobs cfg st))"
    unfolding sel by (rule getPendingJobs_sorted)
  have 3: "\<forall>j \<in> set (selected_jobs cfg st). \<forall>r \<in> set (jobs st).
              status r = PENDING \<and> r \<notin> set (selected_jobs cfg st)
              \<longrightarrow> created_at j \<le> created_at r"
    unfolding sel using getPendingJobs_oldest [of _ limit st] by blast
  have 4: "int (length (selected_jobs cfg st)) \<le> limit"
    unfolding sel using l by (rule getPendingJobs_length)
  have 5: "int (length (activeJobs st)) \<le> maxConcurrentJobs cfg"
    using a by (simp add: active_ok_def)
  have 6: "maxConcurrentJobs cfg \<le> int (length (activeJobs st)) \<longrightarrow> selected_jobs cfg st = []"
  proof
    assume "maxConcurrentJobs cfg \<le> int (length (activeJobs st))"
    then have "int (length (selected_jobs cfg st)) \<le> 0" using 4 unfolding limit_def by linarith
    then show "selected_jobs cfg st = []" by simp
  qed
  show ?thesis
    using 1 2 3 4 5 6 unfolding st_def [symmetric] limit_def by blast
qed

theorem selected_jobs_oldest_pending_capped_witness:
  "selected_jobs cfg3 (run cfg3 demo_lib [Submit 1000 ''job-1'' (Some ''ep1'') cat False] (init cfg3))
     = [cat_row]
   \<and> int (length (selected_jobs cfg3
        (run cfg3 demo_lib [Submit 1000 ''job-1'' (Some ''ep1'') cat False] (init cfg3))))
       \<le> 5 - int (length (activeJobs
        (run cfg3 demo_lib [Submit 1000 ''job-1'' (Some ''ep1'') cat False] (init cfg3))))"
proof -
  have c: "0 \<le> maxConcurrentJobs cfg3" by (simp add: cfg3_def)
  have e: "activeJobs (init cfg3) = []" by (simp add: init_def)
  from selected_jobs_oldest_pending_capped
    [OF c e, of demo_lib "[Submit 1000 ''job-1'' (Some ''ep1'') cat False]"]
  show ?thesis
    by (simp add: one_job_run)
       (simp add: one_job_def selected_jobs_def getPendingJobs_def cfg3_def cat_row_def)
qed

text \<open>
  Claim C4 as stated fails when the number of active jobs exceeds \<open>maxConcurrentJobs\<close>:
  the limit handed to \<open>getPendingJobs\<close> is negative, which is no limit. With
  \<open>MAX_CONCURRENT_JOBS=-1\<close> the first tick after a submission selects the job.
\<close>

theorem selected_jobs_negative_limit_counterexample:
  "maxConcurrentJobs neg_cap
     \<le> int (length (activeJobs
          (run neg_cap demo_lib [Submit 1000 ''job-1'' (Some ''ep1'') cat False] (init neg_cap))))
   \<and> selected_jobs neg_cap
        (run neg_cap demo_lib [Submit 1000 ''job-1'' (Some ''ep1'') cat False] (init neg_cap))
       = [cat_row]"
proof -
  have "run neg_cap demo_lib [Submit 1000 ''job-1'' (Some ''ep1'') cat False] (init neg_cap) = one_job"
    by (simp add: run_def init_def demo_lib_def submitJob_def hashInput_cat getJobByHash_def
      getTodaySpend_def createJob_def inserted_row_def broadcast_def neg_cap_def one_job_def
      cat_row_def)
  then show ?thesis
    by (simp add: one_job_def selected_jobs_def getPendingJobs_def neg_cap_def cat_row_def)
qed

section \<open>The deduplication invariant\<close>




section \<open>Retry of a dead letter\<close>

text \<open>
  Claim C7. For a dead-letter record that holds the snapshot of a row, as every record
  \<open>processJob\<close> writes does, \<open>retryDeadLetter\<close> is \<open>submitJob\<close> with
  \<open>skipDeduplication\<close>, the row's input and no endpoint: the snapshot has the property
  \<open>endpoint_id\<close>, and \<open>endpointId\<close> is read. The state is unchanged, or one row is
  added, PENDING, with the given id, the input of the original job and \<open>endpoint_id\<close>
  \<open>NULL\<close>; the dead-letter table is not touched. For an id that no record has,
  \<open>retryDeadLetter\<close> fails with the not-found error.
\<close>

theorem retryDeadLetter_drops_endpoint:
  "(dlqId \<notin> set (map dlq_id (dead_letter_queue st)) \<longrightarrow>
      retryDeadLetter cfg H now uuid dlqId st = (Inl DeadLetterNotFound, st))
   \<and> (find (\<lambda>j. dlq_id j = dlqId) (getDeadLetterJobs st) = Some d
        \<and> job_data d = row_object job \<longrightarrow>
        retryDeadLetter cfg H now uuid dlqId st
           = submitJob cfg H now uuid None (input job) True st
      \<and> (snd (retryDeadLetter cfg H now uuid dlqId st) = st
          \<or> (\<exists>h. snd (retryDeadLetter cfg H now uuid dlqId st)
                 = broadcast (JobCreated uuid PENDING)
                     (st\<lparr>jobs := jobs st @ [inserted_row now uuid None h (input job)]\<rparr>)))
      \<and> dead_letter_queue (snd (retryDeadLetter cfg H now uuid dlqId st))
           = dead_letter_queue st)"
proof (intro conjI impI)
  assume "dlqId \<notin> set (map dlq_id (dead_letter_queue st))"
  then have "find (\<lambda>j. dlq_id j = dlqId) (getDeadLetterJobs st) = None"
    by (auto simp: find_None_iff getDeadLetterJobs_def)
  then show "retryDeadLetter cfg H now uuid dlqId st = (Inl DeadLetterNotFound, st)"
    by (simp add: retryDeadLetter_def)
next
  assume a: "find (\<lambda>j. dlq_id j = dlqId) (getDeadLetterJobs st) = Some d
        \<and> job_data d = row_object job"
  show 1: "retryDeadLetter cfg H now uuid dlqId st
           = submitJob cfg H now uuid None (input job) True st"
    using a by (simp add: retryDeadLetter_def Let_def row_object_props)
  show 2: "snd (retryDeadLetter cfg H now uuid dlqId st) = st
          \<or> (\<exists>h. snd (retryDeadLetter cfg H now uuid dlqId st)
                 = broadcast (JobCreated uuid PENDING)
                     (st\<lparr>jobs := jobs st @ [inserted_row now uuid None h (input job)]\<rparr>))"
    unfolding 1 using submitJob_effect [of cfg H now uuid None "input job" True st] by blast
  show "dead_letter_queue (snd (retryDeadLetter cfg H now uuid dlqId st)) = dead_letter_queue st"
    using 2 by (elim disjE exE) simp_all
qed

theorem retryDeadLetter_drops_endpoint_witness:
  "map endpoint_id (jobs dead_run) = [Some ''ep1'']
   \<and> fst (retryDeadLetter cfg3 demo_digest 5000 ''job-2'' ''dlq_2500'' dead_run)
       = Inr (Queued ''job-2'' PENDING)
   \<and> map (\<lambda>r. (job_id r, endpoint_id r, status r))
         (jobs (snd (retryDeadLetter cfg3 demo_digest 5000 ''job-2'' ''dlq_2500'' dead_run)))
       = [(''job-1'', Some ''ep1'', FAILED), (''job-2'', None, PENDING)]
   \<and> retryDeadLetter cfg3 demo_digest 5000 ''job-2'' ''dlq_1'' dead_run
       = (Inl DeadLetterNotFound, dead_run)"
proof -
  have f: "find (\<lambda>j. dlq_id j = ''dlq_2500'') (getDeadLetterJobs dead_run) = Some dead_letter"
    by (simp add: getDeadLetterJobs_def dead_run_eval) (simp add: dead_letter_def)
  have d: "job_data dead_letter = row_object retried_row" by (simp add: dead_letter_def)
  have n: "''dlq_1'' \<notin> set (map dlq_id (dead_letter_queue dead_run))"
    by (simp add: dead_run_eval dead_letter_def)
  have i: "input retried_row = cat" by (simp add: retried_row_def cat_row_def)
  have s: "submitJob cfg3 demo_digest 5000 ''job-2'' None cat True dead_run
      = (Inr (Queued ''job-2'' PENDING), broadcast (JobCreated ''job-2'' PENDING)
           (dead_run\<lparr>jobs := jobs dead_run @ [inserted_row 5000 ''job-2'' None ''0000000000000000'' cat]\<rparr>))"
    by (simp add: submitJob_def hashInput_cat getTodaySpend_def dead_run_eval cfg3_def
        createJob_def retried_row_def cat_row_def)
  from retryDeadLetter_drops_endpoint
         [of "''dlq_2500''" dead_run cfg3 demo_digest 5000 "''job-2''" dead_letter retried_row]
       retryDeadLetter_drops_endpoint
         [of "''dlq_1''" dead_run cfg3 demo_digest 5000 "''job-2''" dead_letter retried_row]
  show ?thesis
    using f d n by (simp add: i s dead_run_eval retried_row_def cat_row_def)
qed

end
